theory Spec2Isabelle
  imports Main "HOL-Library.Char_ord" "HOL-Library.List_Lexorder"
begin

section \<open>Python strings\<close>

text \<open>
  A Python \<^verbatim>\<open>str\<close> is modelled as a \<^typ>\<open>string\<close>, one \<^typ>\<open>char\<close> per code point; the
  model covers the code points below 256.  The character tests below are the ones of
  CPython on that range.
\<close>

abbreviation SQ :: char where "SQ \<equiv> CHR 0x27"
abbreviation DQ :: char where "DQ \<equiv> CHR 0x22"
abbreviation BSL :: char where "BSL \<equiv> CHR 0x5C"
abbreviation NL :: char where "NL \<equiv> CHR 0x0A"

abbreviation CR :: char where "CR \<equiv> CHR 0x0D"

definition is_space :: "char \<Rightarrow> bool" where
  \<comment> \<open>\<^verbatim>\<open>str.isspace\<close> on one character; also the class \<^verbatim>\<open>\s\<close> of \<^verbatim>\<open>re\<close>.\<close>
  "is_space c = (c \<in> set [CHR 0x09, CHR 0x0A, CHR 0x0B, CHR 0x0C, CHR 0x0D, CHR 0x1C,
                            CHR 0x1D, CHR 0x1E, CHR 0x1F, CHR 0x20, CHR 0x85, CHR 0xA0])"

definition is_linebreak :: "char \<Rightarrow> bool" where
  \<comment> \<open>the line boundaries of \<^verbatim>\<open>str.splitlines\<close> (a CR LF pair is handled by \<open>sl\<close>).\<close>
  "is_linebreak c = (c \<in> set [CHR 0x0A, CHR 0x0B, CHR 0x0C, CHR 0x0D, CHR 0x1C, CHR 0x1D,
                                CHR 0x1E, CHR 0x85])"

definition is_ascii_digit :: "char \<Rightarrow> bool" where
  "is_ascii_digit c = (c \<in> set ''0123456789'')"

definition is_ascii_alpha :: "char \<Rightarrow> bool" where
  "is_ascii_alpha c =
     (c \<in> set ''abcdefghijklmnopqrstuvwxyzABCDEFGHIJKLMNOPQRSTUVWXYZ'')"

definition is_word :: "char \<Rightarrow> bool" where
  \<comment> \<open>the class \<^verbatim>\<open>\w\<close> of \<^verbatim>\<open>re\<close> on a \<^verbatim>\<open>str\<close> pattern: alphanumeric or underscore.\<close>
  "is_word c =
     (is_ascii_digit c \<or> is_ascii_alpha c \<or> c = CHR ''_''
      \<or> c \<in> set [CHR 0xAA, CHR 0xB2, CHR 0xB3, CHR 0xB5, CHR 0xB9, CHR 0xBA, CHR 0xBC,
                    CHR 0xBD, CHR 0xBE]
      \<or> (CHR 0xC0 \<le> c \<and> c \<le> CHR 0xD6) \<or> (CHR 0xD8 \<le> c \<and> c \<le> CHR 0xF6)
      \<or> CHR 0xF8 \<le> c)"

definition is_digit :: "char \<Rightarrow> bool" where
  \<comment> \<open>\<^verbatim>\<open>str.isdigit\<close> on one character: the superscripts 1, 2, 3 count as digits.\<close>
  "is_digit c = (is_ascii_digit c \<or> c \<in> set [CHR 0xB2, CHR 0xB3, CHR 0xB9])"

definition isdigit :: "string \<Rightarrow> bool" where
  "isdigit s = (s \<noteq> [] \<and> list_all is_digit s)"

definition lstrip :: "string \<Rightarrow> string" where
  "lstrip s = dropWhile is_space s"

definition rstrip :: "string \<Rightarrow> string" where
  "rstrip s = rev (dropWhile is_space (rev s))"

definition strip :: "string \<Rightarrow> string" where
  "strip s = lstrip (rstrip s)"

definition startswith :: "string \<Rightarrow> string \<Rightarrow> bool" where
  "startswith s p = (take (length p) s = p)"

definition endswith :: "string \<Rightarrow> string \<Rightarrow> bool" where
  "endswith s p = (length p \<le> length s \<and> drop (length s - length p) s = p)"

fun join :: "string \<Rightarrow> string list \<Rightarrow> string" where
  "join sep [] = []"
| "join sep [x] = x"
| "join sep (x # y # ys) = x @ sep @ join sep (y # ys)"

text \<open>\<^verbatim>\<open>str.splitlines()\<close>: \<open>sl cur s\<close> scans \<open>s\<close> with the current line \<open>cur\<close>.\<close>

fun sl :: "string \<Rightarrow> string \<Rightarrow> string list" where
  "sl cur [] = (if cur = [] then [] else [cur])"
| "sl cur [c] = (if is_linebreak c then [cur] else [cur @ [c]])"
| "sl cur (c # d # cs) =
     (if c = CR \<and> d = NL then cur # sl [] cs
      else if is_linebreak c then cur # sl [] (d # cs)
      else sl (cur @ [c]) (d # cs))"

definition splitlines :: "string \<Rightarrow> string list" where
  "splitlines s = sl [] s"

text \<open>\<^verbatim>\<open>sub in s\<close> and \<^verbatim>\<open>s.split(sub, 1)[1]\<close> (the text after the first occurrence).\<close>

fun after_first :: "string \<Rightarrow> string \<Rightarrow> string option" where
  "after_first sub [] = (if sub = [] then Some [] else None)"
| "after_first sub (c # cs) =
     (if startswith (c # cs) sub then Some (drop (length sub) (c # cs))
      else after_first sub cs)"

definition contains :: "string \<Rightarrow> string \<Rightarrow> bool" where
  "contains s sub = (after_first sub s \<noteq> None)"

text \<open>\<^verbatim>\<open>s.split(sep, 1)[0]\<close>: the text before the first occurrence of \<open>sep\<close>.\<close>

fun before_first :: "string \<Rightarrow> string \<Rightarrow> string" where
  "before_first sub [] = []"
| "before_first sub (c # cs) =
     (if startswith (c # cs) sub then [] else c # before_first sub cs)"

section \<open>Parameter values\<close>

text \<open>
  The values of a block's parameter dictionary: \<^verbatim>\<open>None\<close>, an \<^verbatim>\<open>int\<close> or a \<^verbatim>\<open>str\<close>.  A
  dictionary is an association list in insertion order.
\<close>

datatype pval = VNone | VInt int | VStr string

type_synonym pdict = "(string \<times> pval) list"

definition dget :: "pdict \<Rightarrow> string \<Rightarrow> pval \<Rightarrow> pval" where
  \<comment> \<open>\<^verbatim>\<open>d.get(key, default)\<close>\<close>
  "dget d key dflt = (case map_of d key of None \<Rightarrow> dflt | Some v \<Rightarrow> v)"

definition truthy :: "pval \<Rightarrow> bool" where
  "truthy v = (case v of VNone \<Rightarrow> False | VInt i \<Rightarrow> i \<noteq> 0 | VStr s \<Rightarrow> s \<noteq> [])"

definition por :: "pval \<Rightarrow> pval \<Rightarrow> pval" where
  \<comment> \<open>\<^verbatim>\<open>a or b\<close>\<close>
  "por a b = (if truthy a then a else b)"

fun dec_nat :: "nat \<Rightarrow> string" where
  "dec_nat n = (if n < 10 then [''0123456789'' ! n]
                else dec_nat (n div 10) @ [''0123456789'' ! (n mod 10)])"

declare dec_nat.simps [simp del]

definition str_int :: "int \<Rightarrow> string" where
  "str_int i = (if i < 0 then CHR ''-'' # dec_nat (nat (- i)) else dec_nat (nat i))"

definition py_str :: "pval \<Rightarrow> string" where
  \<comment> \<open>\<^verbatim>\<open>str(v)\<close>, also the formatting of \<^verbatim>\<open>{v}\<close> in an f-string\<close>
  "py_str v = (case v of VNone \<Rightarrow> ''None'' | VInt i \<Rightarrow> str_int i | VStr s \<Rightarrow> s)"

datatype error =
    MissingParameter string   \<comment> \<open>\<^verbatim>\<open>ValueError("Missing template param: <key>")\<close>\<close>
  | ValueError
  | TypeError
  | AttributeError

definition digit_val :: "char \<Rightarrow> int" where
  "digit_val c = int (of_char c) - 48"

definition int_body_ok :: "string \<Rightarrow> bool" where
  \<comment> \<open>decimal digits, single underscores allowed between digits\<close>
  "int_body_ok s =
     (s \<noteq> [] \<and> list_all (\<lambda>c. is_ascii_digit c \<or> c = CHR ''_'') s
      \<and> hd s \<noteq> CHR ''_'' \<and> last s \<noteq> CHR ''_'' \<and> \<not> contains s ''__'')"

definition int_of_digits :: "string \<Rightarrow> int" where
  "int_of_digits s = foldl (\<lambda>a c. 10 * a + digit_val c) 0 (filter (\<lambda>c. c \<noteq> CHR ''_'') s)"

definition py_int_str :: "string \<Rightarrow> error + int" where
  \<comment> \<open>\<^verbatim>\<open>int(s)\<close> for a \<^verbatim>\<open>str\<close>: surrounding whitespace, an optional sign, decimal digits\<close>
  "py_int_str s =
     (let t = strip s in
      case t of
        [] \<Rightarrow> Inl ValueError
      | c # cs \<Rightarrow>
          if c = CHR ''-'' then (if int_body_ok cs then Inr (- int_of_digits cs) else Inl ValueError)
          else if c = CHR ''+'' then (if int_body_ok cs then Inr (int_of_digits cs) else Inl ValueError)
          else if int_body_ok t then Inr (int_of_digits t) else Inl ValueError)"

definition py_int :: "pval \<Rightarrow> error + int" where
  \<comment> \<open>\<^verbatim>\<open>int(v)\<close>\<close>
  "py_int v = (case v of VNone \<Rightarrow> Inl TypeError | VInt i \<Rightarrow> Inr i | VStr s \<Rightarrow> py_int_str s)"

section \<open>Regular expressions\<close>

text \<open>
  The patterns of the program are terms of \<open>re\<close>; \<open>rmatch\<close> is the backtracking matcher
  of Python's \<^verbatim>\<open>re\<close> module: alternatives are tried left to right, a greedy repetition
  tries the longer match first, a lazy one the shorter, and the first success is the
  result.  A matcher state holds the text still to be read, the character before it
  (for \<^verbatim>\<open>\b\<close> and \<^verbatim>\<open>^\<close>) and the groups captured so far, the latest binding first.
\<close>

datatype citem =
    CC char          \<comment> \<open>one character\<close>
  | CRange char char \<comment> \<open>\<^verbatim>\<open>a-z\<close>\<close>
  | CSpace           \<comment> \<open>\<^verbatim>\<open>\s\<close>\<close>
  | CWord            \<comment> \<open>\<^verbatim>\<open>\w\<close>\<close>

datatype cclass =
    Dot                   \<comment> \<open>\<^verbatim>\<open>.\<close>: any character but a newline\<close>
  | OneOf "citem list"    \<comment> \<open>\<^verbatim>\<open>[...]\<close>\<close>
  | NoneOf "citem list"   \<comment> \<open>\<^verbatim>\<open>[^...]\<close>\<close>

datatype re =
    Lit string        \<comment> \<open>literal text\<close>
  | Cls cclass
  | Seq re re
  | Alt re re         \<comment> \<open>\<^verbatim>\<open>a|b\<close>\<close>
  | Opt re            \<comment> \<open>\<^verbatim>\<open>a?\<close>\<close>
  | Star re           \<comment> \<open>\<^verbatim>\<open>a*\<close>\<close>
  | StarLazy re       \<comment> \<open>\<^verbatim>\<open>a*?\<close>\<close>
  | Grp nat re        \<comment> \<open>capturing group number n\<close>
  | Bref nat          \<comment> \<open>\<^verbatim>\<open>\n\<close>\<close>
  | WordB             \<comment> \<open>\<^verbatim>\<open>\b\<close>\<close>
  | Bol               \<comment> \<open>\<^verbatim>\<open>^\<close>\<close>
  | Eol               \<comment> \<open>\<^verbatim>\<open>$\<close>\<close>

datatype mstate = MState (rest: string) (prev: "char option") (caps: "(nat \<times> string) list")

fun citem_match :: "citem \<Rightarrow> char \<Rightarrow> bool" where
  "citem_match (CC x) c = (c = x)"
| "citem_match (CRange a b) c = (a \<le> c \<and> c \<le> b)"
| "citem_match CSpace c = is_space c"
| "citem_match CWord c = is_word c"

fun cmatch :: "cclass \<Rightarrow> char \<Rightarrow> bool" where
  "cmatch Dot c = (c \<noteq> NL)"
| "cmatch (OneOf is) c = list_ex (\<lambda>i. citem_match i c) is"
| "cmatch (NoneOf is) c = (\<not> list_ex (\<lambda>i. citem_match i c) is)"

definition advance :: "string \<Rightarrow> mstate \<Rightarrow> mstate" where
  \<comment> \<open>read the text \<open>l\<close>, which is a prefix of the rest\<close>
  "advance l s =
     (if l = [] then s else MState (drop (length l) (rest s)) (Some (last l)) (caps s))"

definition lit_match :: "string \<Rightarrow> (mstate \<Rightarrow> 'a option) \<Rightarrow> mstate \<Rightarrow> 'a option" where
  "lit_match l k s = (if startswith (rest s) l then k (advance l s) else None)"

definition word_opt :: "char option \<Rightarrow> bool" where
  "word_opt c = (case c of None \<Rightarrow> False | Some x \<Rightarrow> is_word x)"

definition consumed :: "mstate \<Rightarrow> mstate \<Rightarrow> string" where
  \<comment> \<open>the text read between the state \<open>s\<close> and the later state \<open>s'\<close>\<close>
  "consumed s s' = take (length (rest s) - length (rest s')) (rest s)"

text \<open>
  Repetition.  Every round must read at least one character, so the number of rounds
  is bounded by the length of the text: the second argument is the text at the start of
  the repetition, one element of it used up per round.
\<close>

primrec star_greedy ::
  "((mstate \<Rightarrow> 'a option) \<Rightarrow> mstate \<Rightarrow> 'a option) \<Rightarrow> string \<Rightarrow> (mstate \<Rightarrow> 'a option) \<Rightarrow> mstate \<Rightarrow> 'a option"
where
  "star_greedy f [] k s = k s"
| "star_greedy f (x # fuel) k s =
     (case f (\<lambda>s'. if length (rest s') < length (rest s) then star_greedy f fuel k s' else None) s of
        Some r \<Rightarrow> Some r
      | None \<Rightarrow> k s)"

primrec star_lazy ::
  "((mstate \<Rightarrow> 'a option) \<Rightarrow> mstate \<Rightarrow> 'a option) \<Rightarrow> string \<Rightarrow> (mstate \<Rightarrow> 'a option) \<Rightarrow> mstate \<Rightarrow> 'a option"
where
  "star_lazy f [] k s = k s"
| "star_lazy f (x # fuel) k s =
     (case k s of
        Some r \<Rightarrow> Some r
      | None \<Rightarrow> f (\<lambda>s'. if length (rest s') < length (rest s) then star_lazy f fuel k s' else None) s)"

primrec rmatch :: "re \<Rightarrow> (mstate \<Rightarrow> 'a option) \<Rightarrow> mstate \<Rightarrow> 'a option" where
  "rmatch (Lit l) k s = lit_match l k s"
| "rmatch (Cls c) k s =
     (case rest s of
        [] \<Rightarrow> None
      | x # xs \<Rightarrow> if cmatch c x then k (MState xs (Some x) (caps s)) else None)"
| "rmatch (Seq a b) k s = rmatch a (rmatch b k) s"
| "rmatch (Alt a b) k s = (case rmatch a k s of Some r \<Rightarrow> Some r | None \<Rightarrow> rmatch b k s)"
| "rmatch (Opt a) k s = (case rmatch a k s of Some r \<Rightarrow> Some r | None \<Rightarrow> k s)"
| "rmatch (Star a) k s = star_greedy (rmatch a) (rest s) k s"
| "rmatch (StarLazy a) k s = star_lazy (rmatch a) (rest s) k s"
| "rmatch (Grp n a) k s =
     rmatch a (\<lambda>s'. k (MState (rest s') (prev s') ((n, consumed s s') # caps s'))) s"
| "rmatch (Bref n) k s =
     (case map_of (caps s) n of None \<Rightarrow> None | Some g \<Rightarrow> lit_match g k s)"
| "rmatch WordB k s =
     (if word_opt (prev s) \<noteq> word_opt (case rest s of [] \<Rightarrow> None | x # xs \<Rightarrow> Some x)
      then k s else None)"
| "rmatch Bol k s = (if prev s = None then k s else None)"
| "rmatch Eol k s = (if rest s = [] \<or> rest s = [NL] then k s else None)"

definition Plus :: "re \<Rightarrow> re" where
  \<comment> \<open>\<^verbatim>\<open>a+\<close>\<close>
  "Plus a = Seq a (Star a)"

definition PlusLazy :: "re \<Rightarrow> re" where
  \<comment> \<open>\<^verbatim>\<open>a+?\<close>\<close>
  "PlusLazy a = Seq a (StarLazy a)"

fun seqs :: "re list \<Rightarrow> re" where
  "seqs [] = Lit []"
| "seqs [r] = r"
| "seqs (r # rs) = Seq r (seqs rs)"

definition re_match :: "re \<Rightarrow> string \<Rightarrow> mstate option" where
  \<comment> \<open>\<^verbatim>\<open>pattern.match(s)\<close>: a match starting at the beginning of \<open>s\<close>\<close>
  "re_match r s = rmatch r Some (MState s None [])"

definition group :: "mstate \<Rightarrow> nat \<Rightarrow> string option" where
  \<comment> \<open>\<^verbatim>\<open>m.group(n)\<close>; \<^verbatim>\<open>None\<close> for a group that took no part in the match\<close>
  "group m n = map_of (caps m) n"

definition group_str :: "mstate \<Rightarrow> nat \<Rightarrow> string" where
  \<comment> \<open>\<^verbatim>\<open>m.group(n)\<close> of a group that every match of the pattern sets\<close>
  "group_str m n = (case map_of (caps m) n of None \<Rightarrow> [] | Some g \<Rightarrow> g)"

abbreviation ws0 :: re where "ws0 \<equiv> Star (Cls (OneOf [CSpace]))"
abbreviation ws1 :: re where "ws1 \<equiv> Plus (Cls (OneOf [CSpace]))"
abbreviation word1 :: re where "word1 \<equiv> Plus (Cls (OneOf [CWord]))"
abbreviation sigil_var :: re where "sigil_var \<equiv> Seq (Lit ''$'') word1"

text \<open>The result of a match is a result of its continuation.\<close>

lemma star_greedy_result:
  assumes "\<And>k s x. f k s = Some x \<Longrightarrow> \<exists>m. k m = Some x"
  shows "star_greedy f fuel k s = Some x \<Longrightarrow> \<exists>m. k m = Some x"
proof (induction fuel arbitrary: s)
  case Nil
  then show ?case by auto
next
  case (Cons c fuel)
  show ?case
  proof (cases "f (\<lambda>s'. if length (rest s') < length (rest s) then star_greedy f fuel k s' else None) s")
    case None
    with Cons.prems show ?thesis by auto
  next
    case (Some r)
    with Cons.prems have "r = x" by simp
    with Some assms obtain m where
      "(if length (rest m) < length (rest s) then star_greedy f fuel k m else None) = Some x"
      by blast
    then have "star_greedy f fuel k m = Some x" by (simp split: if_splits)
    then show ?thesis by (rule Cons.IH)
  qed
qed

lemma star_lazy_result:
  assumes "\<And>k s x. f k s = Some x \<Longrightarrow> \<exists>m. k m = Some x"
  shows "star_lazy f fuel k s = Some x \<Longrightarrow> \<exists>m. k m = Some x"
proof (induction fuel arbitrary: s)
  case Nil
  then show ?case by auto
next
  case (Cons c fuel)
  show ?case
  proof (cases "k s")
    case (Some r)
    with Cons.prems show ?thesis by auto
  next
    case None
    with Cons.prems have
      "f (\<lambda>s'. if length (rest s') < length (rest s) then star_lazy f fuel k s' else None) s = Some x"
      by simp
    with assms obtain m where
      "(if length (rest m) < length (rest s) then star_lazy f fuel k m else None) = Some x"
      by blast
    then have "star_lazy f fuel k m = Some x" by (simp split: if_splits)
    then show ?thesis by (rule Cons.IH)
  qed
qed

lemma rmatch_result: "rmatch r k s = Some x \<Longrightarrow> \<exists>m. k m = Some x"
proof (induction r arbitrary: k s x)
  case (Lit l)
  then show ?case by (auto simp: lit_match_def split: if_splits)
next
  case (Cls c)
  then show ?case by (auto split: list.splits if_splits)
next
  case (Seq a b)
  from Seq.prems have "rmatch a (rmatch b k) s = Some x" by simp
  then obtain m where "rmatch b k m = Some x" using Seq.IH(1) by blast
  then show ?case using Seq.IH(2) by blast
next
  case (Alt a b)
  then show ?case by (auto split: option.splits)
next
  case (Opt a)
  then show ?case by (auto split: option.splits)
next
  case (Star a)
  from star_greedy_result [of "rmatch a" "rest s" k s x, OF Star.IH] Star.prems
  show ?case by simp
next
  case (StarLazy a)
  from star_lazy_result [of "rmatch a" "rest s" k s x, OF StarLazy.IH] StarLazy.prems
  show ?case by simp
next
  case (Grp n a)
  from Grp.prems Grp.IH [of "\<lambda>s'. k (MState (rest s') (prev s') ((n, consumed s s') # caps s'))" s]
  show ?case by auto
next
  case (Bref n)
  then show ?case by (auto simp: lit_match_def split: option.splits if_splits)
next
  case WordB
  then show ?case by (auto split: if_splits)
next
  case Bol
  then show ?case by (auto split: if_splits)
next
  case Eol
  then show ?case by (auto split: if_splits)
qed

lemma rmatch_guard:
  assumes "rmatch r (\<lambda>m. if P m then Some m else None) s = Some x"
  shows "P x"
proof -
  from rmatch_result [OF assms] obtain m where "(if P m then Some m else None) = Some x" by blast
  then show ?thesis by (auto split: if_splits)
qed

text \<open>
  \<^verbatim>\<open>pattern.sub(repl, s)\<close> with a function \<open>repl\<close>, which may raise: the leftmost matches,
  one after the other.  After an empty match the search at the same place goes on for a
  match that is not empty; when there is none, the next character is copied.
\<close>

function re_sub_loop ::
  "re \<Rightarrow> (mstate \<Rightarrow> error + string) \<Rightarrow> char option \<Rightarrow> string \<Rightarrow> error + string"
where
  "re_sub_loop r repl p s =
     (case rmatch r Some (MState s p []) of
        None \<Rightarrow>
          (case s of
             [] \<Rightarrow> Inr []
           | c # cs \<Rightarrow> map_sum id ((#) c) (re_sub_loop r repl (Some c) cs))
      | Some m \<Rightarrow>
          (case repl m of
             Inl e \<Rightarrow> Inl e
           | Inr t \<Rightarrow>
               if length (rest m) < length s
               then map_sum id ((@) t) (re_sub_loop r repl (prev m) (rest m))
               else
                 (case rmatch r (\<lambda>m'. if length (rest m') < length s then Some m' else None)
                         (MState s p []) of
                    Some m' \<Rightarrow>
                      (case repl m' of
                         Inl e \<Rightarrow> Inl e
                       | Inr t' \<Rightarrow> map_sum id ((@) (t @ t')) (re_sub_loop r repl (prev m') (rest m')))
                  | None \<Rightarrow>
                      (case s of
                         [] \<Rightarrow> Inr t
                       | c # cs \<Rightarrow> map_sum id ((@) (t @ [c])) (re_sub_loop r repl (Some c) cs)))))"
  by pat_completeness auto
termination
  by (relation "measure (\<lambda>(r, repl, p, s). length s)") (auto dest!: rmatch_guard)

declare re_sub_loop.simps [simp del]

definition re_sub :: "re \<Rightarrow> (mstate \<Rightarrow> error + string) \<Rightarrow> string \<Rightarrow> error + string" where
  "re_sub r repl s = re_sub_loop r repl None s"

section \<open>Template renderer\<close>

definition PLACEHOLDER_RE :: re where
  \<comment> \<open>\<^verbatim>\<open>\{([A-Za-z_]\w*)\}\<close>\<close>
  "PLACEHOLDER_RE =
     seqs [Lit ''{'',
           Grp 1 (Seq (Cls (OneOf [CRange CHR ''A'' CHR ''Z'', CRange CHR ''a'' CHR ''z'', CC CHR ''_'']))
                      (Star (Cls (OneOf [CWord])))),
           Lit ''}'']"

definition repl :: "pdict \<Rightarrow> mstate \<Rightarrow> error + string" where
  "repl params m =
     (let key = group_str m 1 in
      case map_of params key of
        None \<Rightarrow> Inl (MissingParameter key)
      | Some val \<Rightarrow> Inr (if val = VNone then [] else py_str val))"

definition render_plugin_template :: "string \<Rightarrow> pdict \<Rightarrow> error + string" where
  "render_plugin_template template params = re_sub PLACEHOLDER_RE (repl params) template"

text \<open>An identifier, as the pattern reads it between the braces: \<^verbatim>\<open>[A-Za-z_]\w*\<close>.\<close>

definition ident_start :: "char \<Rightarrow> bool" where
  "ident_start c =
     ((CHR ''A'' \<le> c \<and> c \<le> CHR ''Z'') \<or> (CHR ''a'' \<le> c \<and> c \<le> CHR ''z'') \<or> c = CHR ''_'')"

definition is_identifier :: "string \<Rightarrow> bool" where
  "is_identifier n = (n \<noteq> [] \<and> ident_start (hd n) \<and> list_all is_word (tl n))"

section \<open>Data model\<close>

abbreviation "BLOCK_EVENT \<equiv> ''event''"
abbreviation "BLOCK_IF \<equiv> ''if''"
abbreviation "BLOCK_ELSIF \<equiv> ''elsif''"
abbreviation "BLOCK_ELSE \<equiv> ''else''"
abbreviation "BLOCK_WHILE \<equiv> ''while''"
abbreviation "BLOCK_RETURN \<equiv> ''return''"
abbreviation "BLOCK_COMMENT \<equiv> ''comment''"
abbreviation "BLOCK_SET_VAR \<equiv> ''set_var''"
abbreviation "BLOCK_SET_BUCKET \<equiv> ''set_bucket''"
abbreviation "BLOCK_GET_BUCKET \<equiv> ''get_bucket''"
abbreviation "BLOCK_DELETE_BUCKET \<equiv> ''delete_bucket''"
abbreviation "BLOCK_TIMER \<equiv> ''timer''"
abbreviation "BLOCK_FOR \<equiv> ''for''"
abbreviation "BLOCK_FOREACH \<equiv> ''foreach''"
abbreviation "BLOCK_PLUGIN \<equiv> ''plugin''"
abbreviation "BLOCK_RAW_PERL \<equiv> ''raw_perl''"
abbreviation "BLOCK_METHOD \<equiv> ''method_call''"
abbreviation "BLOCK_QUEST_CALL \<equiv> ''quest_call''"
abbreviation "BLOCK_MY_VAR \<equiv> ''my_var''"
abbreviation "BLOCK_OUR_VAR \<equiv> ''our_var''"
abbreviation "BLOCK_NEXT \<equiv> ''next''"
abbreviation "BLOCK_ARRAY_ASSIGN \<equiv> ''array_assign''"

text \<open>
  A \<^verbatim>\<open>Block\<close>: its type, label, parameters and children.  The parameters are the scalar
  entries of \<^verbatim>\<open>params\<close>; the one nested dictionary, stored by the program under the key
  \<^verbatim>\<open>plugin_params\<close>, is the field \<open>plugin_params\<close> (\<open>None\<close> when the key is absent).
\<close>

datatype block =
  Block (btype: string) (label: string) (params: pdict) (plugin_params: "pdict option")
        (children: "block list")

text \<open>A \<^verbatim>\<open>PluginDef\<close>; \<open>plugin_name\<close> is its field \<^verbatim>\<open>name\<close>, \<open>plugin_schema\<close> its field \<^verbatim>\<open>params\<close>.\<close>

datatype PluginDef =
  PluginDef (plugin_id: string) (plugin_name: string) (category: string) (perl_template: string)
            (plugin_schema: "pdict list")

text \<open>\<^verbatim>\<open>PluginRegistry.plugins\<close>, the dictionary from plugin ids to definitions.\<close>

type_synonym registry = "(string \<times> PluginDef) list"

definition registry_get :: "registry \<Rightarrow> pval \<Rightarrow> PluginDef option" where
  \<comment> \<open>\<^verbatim>\<open>plugins.get(pid)\<close>: the keys are strings\<close>
  "registry_get plugins pid = (case pid of VStr i \<Rightarrow> map_of plugins i | _ \<Rightarrow> None)"

fun walk_blocks :: "block list \<Rightarrow> block list" where
  "walk_blocks [] = []"
| "walk_blocks (Block t l ps pp cs # bs) = Block t l ps pp cs # walk_blocks cs @ walk_blocks bs"

section \<open>Code generator\<close>

definition emit :: "string \<Rightarrow> nat \<Rightarrow> string" where
  \<comment> \<open>the line that \<^verbatim>\<open>emit(line, indent)\<close> appends\<close>
  "emit line indent = replicate (4 * indent) CHR '' '' @ line"

definition strip_val :: "pval \<Rightarrow> error + string" where
  \<comment> \<open>\<^verbatim>\<open>v.strip()\<close>: only a \<^verbatim>\<open>str\<close> has the method\<close>
  "strip_val v = (case v of VStr s \<Rightarrow> Inr (strip s) | _ \<Rightarrow> Inl AttributeError)"

definition splitlines_val :: "pval \<Rightarrow> error + string list" where
  "splitlines_val v = (case v of VStr s \<Rightarrow> Inr (splitlines s) | _ \<Rightarrow> Inl AttributeError)"

definition strip_one_semicolon :: "string \<Rightarrow> string" where
  \<comment> \<open>\<^verbatim>\<open>if value.rstrip().endswith(";"): value = value.rstrip(); value = value[:-1].rstrip()\<close>\<close>
  "strip_one_semicolon v =
     (if endswith (rstrip v) '';'' then rstrip (butlast (rstrip v)) else v)"

definition decl_line :: "string \<Rightarrow> string \<Rightarrow> pdict \<Rightarrow> string" where
  \<comment> \<open>the line of a \<^verbatim>\<open>my\<close> or \<^verbatim>\<open>our\<close> declaration; \<open>kw\<close> is the keyword, \<open>dflt\<close> the default name\<close>
  "decl_line kw dflt ps =
     (let var_name = dget ps ''var_name'' (VStr dflt);
          value = dget ps ''value'' (VStr []);
          value = (if value = VNone then VStr [] else value);
          value = strip_one_semicolon (py_str value)
      in if strip value \<noteq> [] then kw @ '' '' @ py_str var_name @ '' = '' @ value @ '';''
         else kw @ '' '' @ py_str var_name @ '';'')"

definition is_container :: "string \<Rightarrow> bool" where
  \<comment> \<open>the types whose branch of \<^verbatim>\<open>render_block\<close> renders the children\<close>
  "is_container t =
     (t \<in> set [BLOCK_EVENT, BLOCK_IF, BLOCK_WHILE, BLOCK_FOREACH, BLOCK_ELSIF, BLOCK_ELSE, BLOCK_FOR])"

definition container_open :: "string \<Rightarrow> pdict \<Rightarrow> string" where
  \<comment> \<open>the line a container emits before its children\<close>
  "container_open t ps =
     (if t = BLOCK_EVENT then ''sub '' @ py_str (dget ps ''event_name'' (VStr ''EVENT_SAY'')) @ '' {''
      else if t = BLOCK_IF then ''if ('' @ py_str (dget ps ''expr'' (VStr ''1'')) @ '') {''
      else if t = BLOCK_WHILE then ''while ('' @ py_str (dget ps ''expr'' (VStr ''1'')) @ '') {''
      else if t = BLOCK_FOREACH then
        ''foreach my '' @ py_str (dget ps ''var_name'' (VStr ''$x'')) @ '' (''
          @ py_str (dget ps ''list_expr'' (VStr ''@list'')) @ '') {''
      else if t = BLOCK_ELSIF then ''elsif ('' @ py_str (dget ps ''expr'' (VStr ''1'')) @ '') {''
      else if t = BLOCK_ELSE then ''else {''
      else
        (let var_name = py_str (dget ps ''var_name'' (VStr ''$i''));
             start_s = py_str (dget ps ''start'' (VInt 0));
             end_s = py_str (dget ps ''end'' (VInt 10));
             cmp_op = py_str (dget ps ''cmp_op'' (VStr ''<=''));
             inc_expr = dget ps ''inc_expr'' VNone;
             inc_expr = py_str (if \<not> truthy inc_expr then VStr ''++'' else inc_expr)
         in ''for (my '' @ var_name @ '' = '' @ start_s @ ''; '' @ var_name @ '' '' @ cmp_op @ '' ''
              @ end_s @ ''; '' @ var_name @ inc_expr @ '') {''))"

definition container_close :: "string \<Rightarrow> nat \<Rightarrow> string list" where
  \<comment> \<open>the lines a container emits after its children: an event adds an empty line\<close>
  "container_close t indent =
     (if t = BLOCK_EVENT then [emit ''}'' indent, emit [] indent] else [emit ''}'' indent])"

definition render_leaf :: "registry \<Rightarrow> string \<Rightarrow> pdict \<Rightarrow> pdict option \<Rightarrow> nat \<Rightarrow> error + string list" where
  \<comment> \<open>the branches of \<^verbatim>\<open>render_block\<close> that do not render children, in the source's order\<close>
  "render_leaf plugins t ps pp indent =
     (if t = BLOCK_NEXT then
        (let expr = strip (py_str (dget ps ''expr'' (VStr [])))
         in if expr \<noteq> [] then Inr [emit (''next '' @ expr @ '';'') indent]
            else Inr [emit ''next;'' indent])
      else if t = BLOCK_QUEST_CALL then
        Inr [emit (''quest::'' @ py_str (dget ps ''quest_fn'' (VStr ''say'')) @ ''(''
                   @ py_str (dget ps ''args'' (VStr ([DQ] @ ''Hello, world!'' @ [DQ]))) @ '');'') indent]
      else if t = BLOCK_SET_VAR then
        Inr [emit (py_str (dget ps ''var_name'' (VStr ''$myvar'')) @ '' = ''
                   @ py_str (dget ps ''value'' (VStr ''0'')) @ '';'') indent]
      else if t = BLOCK_ARRAY_ASSIGN then
        Inr [emit (py_str (dget ps ''lhs'' (VStr ''$hash{$key}'')) @ '' = ''
                   @ py_str (dget ps ''value'' (VStr ''0'')) @ '';'') indent]
      else if t = BLOCK_MY_VAR then Inr [emit (decl_line ''my'' ''$myvar'' ps) indent]
      else if t = BLOCK_OUR_VAR then Inr [emit (decl_line ''our'' ''$OurVar'' ps) indent]
      else if t = BLOCK_SET_BUCKET then
        (case strip_val (por (dget ps ''key'' VNone) (VStr ([DQ] @ ''my_bucket'' @ [DQ]))) of
           Inl e \<Rightarrow> Inl e
         | Inr key \<Rightarrow>
             (case strip_val (por (dget ps ''value'' VNone) (VStr [DQ, DQ])) of
                Inl e \<Rightarrow> Inl e
              | Inr value \<Rightarrow> Inr [emit (''quest::set_data('' @ key @ '', '' @ value @ '');'') indent]))
      else if t = BLOCK_GET_BUCKET then
        (case strip_val (por (dget ps ''key'' VNone) (VStr ([DQ] @ ''my_bucket'' @ [DQ]))) of
           Inl e \<Rightarrow> Inl e
         | Inr key \<Rightarrow>
             (case strip_val (por (dget ps ''var_name'' VNone) (VStr ''$value'')) of
                Inl e \<Rightarrow> Inl e
              | Inr var_name \<Rightarrow> Inr [emit (var_name @ '' = quest::get_data('' @ key @ '');'') indent]))
      else if t = BLOCK_DELETE_BUCKET then
        (case strip_val (por (dget ps ''key'' VNone) (VStr ([DQ] @ ''my_bucket'' @ [DQ]))) of
           Inl e \<Rightarrow> Inl e
         | Inr key \<Rightarrow> Inr [emit (''quest::delete_data('' @ key @ '');'') indent])
      else if t = BLOCK_TIMER then
        (case py_int (dget ps ''seconds'' (VInt 10)) of
           Inl e \<Rightarrow> Inl e
         | Inr seconds \<Rightarrow>
             Inr [emit (''quest::settimer('' @ [DQ] @ py_str (dget ps ''name'' (VStr ''my_timer'')) @ [DQ]
                        @ '', '' @ str_int seconds @ '');'') indent])
      else if t = BLOCK_RETURN then
        (let val = strip (py_str (dget ps ''value'' (VStr [])))
         in if val \<noteq> [] then Inr [emit (''return '' @ val @ '';'') indent]
            else Inr [emit ''return;'' indent])
      else if t = BLOCK_COMMENT then
        (case dget ps ''text'' (VStr []) of
           VStr text \<Rightarrow>
             if strip text = [] then Inr [emit ''#'' indent]
             else Inr (map (\<lambda>line. emit (''# '' @ line) indent) (splitlines text))
         | _ \<Rightarrow> Inl AttributeError)
      else if t = BLOCK_PLUGIN then
        (let pid = dget ps ''plugin_id'' VNone in
         if \<not> truthy pid then Inr []
         else
           (case registry_get plugins pid of
              None \<Rightarrow> Inr [emit (''# [Unknown plugin: '' @ py_str pid @ '']'') indent]
            | Some pdef \<Rightarrow>
                (case render_plugin_template (perl_template pdef)
                        (case pp of None \<Rightarrow> [] | Some d \<Rightarrow> d) of
                   Inl e \<Rightarrow> Inl e
                 | Inr code \<Rightarrow>
                     Inr (map (\<lambda>ln. if strip ln \<noteq> [] then emit ln indent else emit [] indent)
                            (splitlines code)))))
      else if t = BLOCK_RAW_PERL then
        (case splitlines_val (dget ps ''code'' (VStr [])) of
           Inl e \<Rightarrow> Inl e
         | Inr code \<Rightarrow> Inr (map (\<lambda>c. emit c indent) code))
      else if t = BLOCK_METHOD then
        (let target = py_str (dget ps ''target'' (VStr ''$client''));
             method = py_str (dget ps ''method'' (VStr ''Message''))
         in case strip_val (dget ps ''args'' (VStr [])) of
              Inl e \<Rightarrow> Inl e
            | Inr args \<Rightarrow>
                if args \<noteq> [] then Inr [emit (target @ ''->'' @ method @ ''('' @ args @ '');'') indent]
                else Inr [emit (target @ ''->'' @ method @ ''();'') indent])
      else Inr [emit (''# [Unknown block type: '' @ t @ '']'') indent])"

text \<open>
  \<^verbatim>\<open>render_block(block, indent)\<close> returns the lines it emits, or the exception it raises;
  \<open>render_all\<close> is the loop \<^verbatim>\<open>for child in ...: render_block(child, ...)\<close>.
\<close>

fun render_block :: "registry \<Rightarrow> block \<Rightarrow> nat \<Rightarrow> error + string list"
  and render_all :: "registry \<Rightarrow> block list \<Rightarrow> nat \<Rightarrow> error + string list"
where
  "render_block plugins (Block t l ps pp cs) indent =
     (if is_container t then
        (case render_all plugins cs (indent + 1) of
           Inl e \<Rightarrow> Inl e
         | Inr body \<Rightarrow> Inr (emit (container_open t ps) indent # body @ container_close t indent))
      else render_leaf plugins t ps pp indent)"
| "render_all plugins [] indent = Inr []"
| "render_all plugins (b # bs) indent =
     (case render_block plugins b indent of
        Inl e \<Rightarrow> Inl e
      | Inr ls \<Rightarrow>
          (case render_all plugins bs indent of
             Inl e \<Rightarrow> Inl e
           | Inr ls' \<Rightarrow> Inr (ls @ ls')))"

definition generate_perl :: "block list \<Rightarrow> registry \<Rightarrow> int option \<Rightarrow> error + string" where
  "generate_perl blocks plugins npc_id =
     (let lines = [''# Generated by EQEmu Script Builder v1.2'']
                  @ (case npc_id of None \<Rightarrow> [] | Some n \<Rightarrow> [''# NPCID: '' @ str_int n])
                  @ [[]]
      in case render_all plugins blocks 0 of
           Inl e \<Rightarrow> Inl e
         | Inr ls \<Rightarrow> Inr (join [NL] (lines @ ls)))"

text \<open>The blocks that \<open>render_all\<close> visits: the children of a container, not those of a leaf.\<close>

fun rendered :: "block list \<Rightarrow> block list" where
  "rendered [] = []"
| "rendered (Block t l ps pp cs # bs) =
     Block t l ps pp cs # (if is_container t then rendered cs else []) @ rendered bs"

section \<open>The recognizers of the reverse parser\<close>

text \<open>The precompiled patterns of \<^verbatim>\<open>parse_perl_to_blocks\<close>, each under the source's name.\<close>

definition re_sub_event :: re where
  \<comment> \<open>\<^verbatim>\<open>^sub\s+(EVENT_\w+)\s*{\<close>\<close>
  "re_sub_event = seqs [Bol, Lit ''sub'', ws1, Grp 1 (Seq (Lit ''EVENT_'') word1), ws0, Lit ''{'']"

definition re_sub_any :: re where
  \<comment> \<open>\<^verbatim>\<open>^sub\s+(\w+)\s*{\<close>\<close>
  "re_sub_any = seqs [Bol, Lit ''sub'', ws1, Grp 1 word1, ws0, Lit ''{'']"

definition re_if :: re where
  \<comment> \<open>\<^verbatim>\<open>^if\s*\((.+)\)\s*{\<close>\<close>
  "re_if = seqs [Bol, Lit ''if'', ws0, Lit ''('', Grp 1 (Plus (Cls Dot)), Lit '')'', ws0, Lit ''{'']"

definition re_elsif :: re where
  \<comment> \<open>\<^verbatim>\<open>^\s*elsif\s*\((.+)\)\s*\{\<close>\<close>
  "re_elsif = seqs [Bol, ws0, Lit ''elsif'', ws0, Lit ''('', Grp 1 (Plus (Cls Dot)), Lit '')'',
                    ws0, Lit ''{'']"

definition re_else :: re where
  \<comment> \<open>\<^verbatim>\<open>^\s*else\s*\{\<close>\<close>
  "re_else = seqs [Bol, ws0, Lit ''else'', ws0, Lit ''{'']"

definition re_while :: re where
  \<comment> \<open>\<^verbatim>\<open>^while\s*\((.+)\)\s*{\<close>\<close>
  "re_while = seqs [Bol, Lit ''while'', ws0, Lit ''('', Grp 1 (Plus (Cls Dot)), Lit '')'', ws0,
                    Lit ''{'']"

definition re_foreach :: re where
  \<comment> \<open>\<^verbatim>\<open>^foreach\s+my\s+(\$\w+)\s*\((.+)\)\s*{$\<close>\<close>
  "re_foreach = seqs [Bol, Lit ''foreach'', ws1, Lit ''my'', ws1, Grp 1 sigil_var, ws0, Lit ''('',
                      Grp 2 (Plus (Cls Dot)), Lit '')'', ws0, Lit ''{'', Eol]"

definition re_for :: re where
  \<comment> \<open>\<^verbatim>\<open>^for\s*\(\s*my\s+(\$\w+)\s*=\s*([^;]+);\s*\<close>
      \<^verbatim>\<open>\1\s*(<=|<)\s*([^;]+);\s*\<close>
      \<^verbatim>\<open>\1\s*(\+\+|\-\-|\+=\s*[^)]+|-=\s*[^)]+)\s*\)\s*{\<close>\<close>
  "re_for = seqs [Bol, Lit ''for'', ws0, Lit ''('', ws0, Lit ''my'', ws1, Grp 1 sigil_var, ws0,
                  Lit ''='', ws0, Grp 2 (Plus (Cls (NoneOf [CC CHR '';'']))), Lit '';'', ws0,
                  Bref 1, ws0, Grp 3 (Alt (Lit ''<='') (Lit ''<'')), ws0,
                  Grp 4 (Plus (Cls (NoneOf [CC CHR '';'']))), Lit '';'', ws0,
                  Bref 1, ws0,
                  Grp 5 (Alt (Lit ''++'')
                        (Alt (Lit ''--'')
                        (Alt (seqs [Lit ''+='', ws0, Plus (Cls (NoneOf [CC CHR '')'']))])
                             (seqs [Lit ''-='', ws0, Plus (Cls (NoneOf [CC CHR '')'']))])))),
                  ws0, Lit '')'', ws0, Lit ''{'']"

definition re_quest :: re where
  \<comment> \<open>\<^verbatim>\<open>^quest::(\w+)\((.*)\);\<close>\<close>
  "re_quest = seqs [Bol, Lit ''quest::'', Grp 1 word1, Lit ''('', Grp 2 (Star (Cls Dot)), Lit '');'']"

definition re_settimer :: re where
  \<comment> \<open>\<^verbatim>\<open>^quest::settimer\(\s*"([^"]+)"\s*,\s*([0-9_]+)\s*\);\<close>\<close>
  "re_settimer = seqs [Bol, Lit ''quest::settimer('', ws0, Lit [DQ],
                       Grp 1 (Plus (Cls (NoneOf [CC DQ]))), Lit [DQ], ws0, Lit '','', ws0,
                       Grp 2 (Plus (Cls (OneOf [CRange CHR ''0'' CHR ''9'', CC CHR ''_'']))),
                       ws0, Lit '');'']"

definition decl_name :: re where
  \<comment> \<open>\<^verbatim>\<open>[\$\@\%]\w+\<close>\<close>
  "decl_name = Seq (Cls (OneOf [CC CHR ''$'', CC CHR ''@'', CC CHR ''%''])) word1"

definition decl_tail :: re where
  \<comment> \<open>\<^verbatim>\<open>\s*(?:=\s*(.+?))?;\s*(?:#.*)?$\<close>\<close>
  "decl_tail = seqs [ws0, Opt (seqs [Lit ''='', ws0, Grp 2 (PlusLazy (Cls Dot))]), Lit '';'', ws0,
                     Opt (Seq (Lit ''#'') (Star (Cls Dot))), Eol]"

definition re_my :: re where
  \<comment> \<open>\<^verbatim>\<open>^my\s+([\$\@\%]\w+)\s*(?:=\s*(.+?))?;\s*(?:#.*)?$\<close>\<close>
  "re_my = seqs [Bol, Lit ''my'', ws1, Grp 1 decl_name, decl_tail]"

definition re_our :: re where
  \<comment> \<open>\<^verbatim>\<open>^our\s+([\$\@\%]\w+)\s*(?:=\s*(.+?))?;\s*(?:#.*)?$\<close>\<close>
  "re_our = seqs [Bol, Lit ''our'', ws1, Grp 1 decl_name, decl_tail]"

definition re_multiline_decl_start :: re where
  \<comment> \<open>\<^verbatim>\<open>^(my|our)\s+([\$\@\%]\w+)\s*=\s*\(\s*$\<close>\<close>
  "re_multiline_decl_start =
     seqs [Bol, Grp 1 (Alt (Lit ''my'') (Lit ''our'')), ws1, Grp 2 decl_name, ws0, Lit ''='', ws0,
           Lit ''('', ws0, Eol]"

definition re_setvar :: re where
  \<comment> \<open>\<^verbatim>\<open>^(\$\w+)\s*=\s*(.+);\<close>\<close>
  "re_setvar = seqs [Bol, Grp 1 sigil_var, ws0, Lit ''='', ws0, Grp 2 (Plus (Cls Dot)), Lit '';'']"

definition re_bucket_set :: re where
  \<comment> \<open>\<^verbatim>\<open>^\$npc->SetBucket\("([^"]+)"\s*,\s*"([^"]*)"\);\<close>\<close>
  "re_bucket_set = seqs [Bol, Lit ''$npc->SetBucket('', Lit [DQ], Grp 1 (Plus (Cls (NoneOf [CC DQ]))),
                         Lit [DQ], ws0, Lit '','', ws0, Lit [DQ],
                         Grp 2 (Star (Cls (NoneOf [CC DQ]))), Lit [DQ], Lit '');'']"

definition re_bucket_get :: re where
  \<comment> \<open>\<^verbatim>\<open>^(\$\w+)\s*=\s*\$npc->GetBucket\("([^"]+)"\);\<close>\<close>
  "re_bucket_get = seqs [Bol, Grp 1 sigil_var, ws0, Lit ''='', ws0, Lit ''$npc->GetBucket('',
                         Lit [DQ], Grp 2 (Plus (Cls (NoneOf [CC DQ]))), Lit [DQ], Lit '');'']"

definition re_bucket_delete :: re where
  \<comment> \<open>\<^verbatim>\<open>^\$npc->DeleteBucket\("([^"]+)"\);\<close>\<close>
  "re_bucket_delete = seqs [Bol, Lit ''$npc->DeleteBucket('', Lit [DQ],
                            Grp 1 (Plus (Cls (NoneOf [CC DQ]))), Lit [DQ], Lit '');'']"

definition re_method :: re where
  \<comment> \<open>\<^verbatim>\<open>^(\$\w+)->(\w+)\((.*)\);\<close>\<close>
  "re_method = seqs [Bol, Grp 1 sigil_var, Lit ''->'', Grp 2 word1, Lit ''('',
                     Grp 3 (Star (Cls Dot)), Lit '');'']"

definition re_return :: re where
  \<comment> \<open>\<^verbatim>\<open>^return\b(.*);?\<close>\<close>
  "re_return = seqs [Bol, Lit ''return'', WordB, Grp 1 (Star (Cls Dot)), Opt (Lit '';'')]"

definition re_next :: re where
  \<comment> \<open>\<^verbatim>\<open>^next\b(.*);$\<close>\<close>
  "re_next = seqs [Bol, Lit ''next'', WordB, Grp 1 (Star (Cls Dot)), Lit '';'', Eol]"

definition re_array_assign :: re where
  \<comment> \<open>\<^verbatim>\<open>^(\$\w+\s*\{\s*[^}]+\s*\})\s*=\s*(.+);$\<close>\<close>
  "re_array_assign =
     seqs [Bol, Grp 1 (seqs [sigil_var, ws0, Lit ''{'', ws0, Plus (Cls (NoneOf [CC CHR ''}''])), ws0,
                             Lit ''}'']),
           ws0, Lit ''='', ws0, Grp 2 (Plus (Cls Dot)), Lit '';'', Eol]"

section \<open>Reverse parser\<close>

text \<open>
  The state of the loop over the lines in \<^verbatim>\<open>parse_perl_to_blocks\<close>.  \<open>p_blocks\<close> is the list
  \<^verbatim>\<open>blocks\<close>, \<open>p_stack\<close> the list \<^verbatim>\<open>stack\<close>, whose elements refer to blocks of the tree: a
  reference is the path of the block, the list of child indices from the root list down to
  it, and the innermost open block is the last element.  The other fields have the names of
  the program's variables.
\<close>

record pstate =
  p_blocks :: "block list"
  p_stack :: "nat list list"
  multiline_decl_kind :: "string option"
  multiline_var_name :: "string option"
  multiline_lines :: "string list"
  custom_sub_name :: "string option"
  custom_sub_lines :: "string list"
  custom_sub_depth :: int
  comment_accum :: "string list"

text \<open>
  \<open>list_at p bs\<close> is the list at the place \<open>p\<close> of the tree \<open>bs\<close>: the root list for the
  empty path, else the children of the block with that path.  \<open>append_at p b bs\<close> appends
  \<open>b\<close> to that list, and \<open>block_at p bs\<close> is the block with the path \<open>p\<close>.
\<close>

fun list_at :: "nat list \<Rightarrow> block list \<Rightarrow> block list" where
  "list_at [] bs = bs"
| "list_at (i # p) bs = (if i < length bs then list_at p (children (bs ! i)) else [])"

fun append_at :: "nat list \<Rightarrow> block \<Rightarrow> block list \<Rightarrow> block list" where
  "append_at [] b bs = bs @ [b]"
| "append_at (i # p) b bs =
     (if i < length bs
      then bs[i := Block (btype (bs ! i)) (label (bs ! i)) (params (bs ! i)) (plugin_params (bs ! i))
                     (append_at p b (children (bs ! i)))]
      else bs)"

fun block_at :: "nat list \<Rightarrow> block list \<Rightarrow> block option" where
  "block_at [] bs = None"
| "block_at [i] bs = (if i < length bs then Some (bs ! i) else None)"
| "block_at (i # j # p) bs = (if i < length bs then block_at (j # p) (children (bs ! i)) else None)"

definition top_place :: "pstate \<Rightarrow> nat list" where
  \<comment> \<open>where \<^verbatim>\<open>add_block\<close> appends: the children of \<^verbatim>\<open>stack[-1]\<close>, or the root list\<close>
  "top_place st = (if p_stack st = [] then [] else last (p_stack st))"

definition add_block :: "block \<Rightarrow> pstate \<Rightarrow> pstate" where
  "add_block b st = st\<lparr>p_blocks := append_at (top_place st) b (p_blocks st)\<rparr>"

definition add_and_push :: "block \<Rightarrow> pstate \<Rightarrow> pstate" where
  \<comment> \<open>\<^verbatim>\<open>add_block(b); stack.append(b)\<close>\<close>
  "add_and_push b st =
     (let place = top_place st;
          path = place @ [length (list_at place (p_blocks st))]
      in (add_block b st)\<lparr>p_stack := p_stack st @ [path]\<rparr>)"

definition pop :: "pstate \<Rightarrow> pstate" where
  \<comment> \<open>\<^verbatim>\<open>stack.pop()\<close> on a stack that is not empty\<close>
  "pop st = st\<lparr>p_stack := butlast (p_stack st)\<rparr>"

definition top_type :: "pstate \<Rightarrow> string option" where
  \<comment> \<open>\<^verbatim>\<open>stack[-1].type\<close>, when the stack is not empty\<close>
  "top_type st =
     (if p_stack st = [] then None
      else map_option btype (block_at (last (p_stack st)) (p_blocks st)))"

definition falsy_opt :: "string option \<Rightarrow> bool" where
  \<comment> \<open>\<^verbatim>\<open>not v\<close> for a value that is \<^verbatim>\<open>None\<close> or a \<^verbatim>\<open>str\<close>\<close>
  "falsy_opt v = (case v of None \<Rightarrow> True | Some s \<Rightarrow> s = [])"

definition opt_str :: "string option \<Rightarrow> string" where
  "opt_str v = (case v of None \<Rightarrow> ''None'' | Some s \<Rightarrow> s)"

definition flush_multiline_decl :: "pstate \<Rightarrow> pstate" where
  "flush_multiline_decl st =
     (let st' = (if falsy_opt (multiline_decl_kind st) \<or> falsy_opt (multiline_var_name st)
                    \<or> multiline_lines st = []
                 then st
                 else add_block
                        (Block BLOCK_RAW_PERL
                           (''Raw Perl ('' @ opt_str (multiline_decl_kind st) @ '' ''
                              @ opt_str (multiline_var_name st) @ '' ...)'')
                           [(''code'', VStr (rstrip (join [NL] (multiline_lines st))))] None [])
                        st)
      in st'\<lparr>multiline_decl_kind := None, multiline_var_name := None, multiline_lines := []\<rparr>)"

definition flush_custom_sub :: "pstate \<Rightarrow> pstate" where
  "flush_custom_sub st =
     (let st' = (if falsy_opt (custom_sub_name st) \<or> custom_sub_lines st = []
                 then st
                 else add_block
                        (Block BLOCK_RAW_PERL (''Raw Perl (sub '' @ opt_str (custom_sub_name st) @ '')'')
                           [(''code'', VStr (rstrip (join [NL] (custom_sub_lines st))))] None [])
                        st)
      in st'\<lparr>custom_sub_name := None, custom_sub_lines := [], custom_sub_depth := 0\<rparr>)"

definition flush_comment :: "pstate \<Rightarrow> pstate" where
  "flush_comment st =
     (if comment_accum st = [] then st
      else
        (let text = join [NL] (comment_accum st);
             first = strip (hd (comment_accum st));
             first = (if length first > 40 then take 37 first @ ''...'' else first);
             label = (if first \<noteq> [] then ''# '' @ first else ''# comment'')
         in (add_block (Block BLOCK_COMMENT label [(''text'', VStr text)] None []) st)
              \<lparr>comment_accum := []\<rparr>))"

text \<open>\<^verbatim>\<open>_strip_strings_and_comment\<close> and \<^verbatim>\<open>_brace_delta\<close>.\<close>

definition re_dq_string :: re where
  \<comment> \<open>\<^verbatim>\<open>"(?:\\.|[^"\\])*"\<close>\<close>
  "re_dq_string = seqs [Lit [DQ], Star (Alt (Seq (Lit [BSL]) (Cls Dot)) (Cls (NoneOf [CC DQ, CC BSL]))),
                        Lit [DQ]]"

definition re_sq_string :: re where
  \<comment> \<open>\<^verbatim>\<open>'(?:\\.|[^'\\])*'\<close>\<close>
  "re_sq_string = seqs [Lit [SQ], Star (Alt (Seq (Lit [BSL]) (Cls Dot)) (Cls (NoneOf [CC SQ, CC BSL]))),
                        Lit [SQ]]"

definition re_sub_const :: "re \<Rightarrow> string \<Rightarrow> string \<Rightarrow> string" where
  \<comment> \<open>\<^verbatim>\<open>re.sub(pattern, repl, s)\<close> for a replacement text without escapes, which cannot raise\<close>
  "re_sub_const r rep s = (case re_sub r (\<lambda>m. Inr rep) s of Inr t \<Rightarrow> t | Inl e \<Rightarrow> s)"

definition strip_strings_and_comment :: "string \<Rightarrow> string" where
  "strip_strings_and_comment s =
     (let s = (if contains s ''#'' then before_first ''#'' s else s);
          s = re_sub_const re_dq_string [DQ, DQ] s;
          s = re_sub_const re_sq_string [SQ, SQ] s
      in s)"

definition brace_delta :: "string \<Rightarrow> int" where
  "brace_delta line =
     (let t = strip_strings_and_comment line
      in int (count_list t CHR ''{'') - int (count_list t CHR ''}''))"

definition to_int_or_str :: "string \<Rightarrow> pval" where
  \<comment> \<open>\<^verbatim>\<open>_to_int_or_str\<close>: \<^verbatim>\<open>int(s.replace("_", "").strip())\<close>, or \<^verbatim>\<open>s.strip()\<close> on a \<^verbatim>\<open>ValueError\<close>\<close>
  "to_int_or_str s =
     (case py_int_str (strip (filter (\<lambda>c. c \<noteq> CHR ''_'') s)) of
        Inr n \<Rightarrow> VInt n
      | Inl e \<Rightarrow> VStr (strip s))"

text \<open>
  A compiled plugin recognizer is the pattern with the names of its groups, the name of
  group 1 first; \<open>groupdict\<close> is \<^verbatim>\<open>m.groupdict()\<close>.  The list \<^verbatim>\<open>plugin_patterns\<close>, which the
  program builds from the registry with \<^verbatim>\<open>re.escape\<close>, \<^verbatim>\<open>re.sub\<close> and \<^verbatim>\<open>re.compile\<close> before the
  loop, is a parameter of the parser here.
\<close>

type_synonym plugin_pattern = "PluginDef \<times> re \<times> string list"

definition groupdict :: "mstate \<Rightarrow> string list \<Rightarrow> pdict" where
  "groupdict m names =
     map (\<lambda>(i, n). (n, case group m i of None \<Rightarrow> VNone | Some g \<Rightarrow> VStr g))
       (zip [1 ..< Suc (length names)] names)"

fun match_plugins :: "plugin_pattern list \<Rightarrow> string \<Rightarrow> block option" where
  "match_plugins [] stripped = None"
| "match_plugins ((pdef, pregex, names) # ps) stripped =
     (case re_match pregex stripped of
        None \<Rightarrow> match_plugins ps stripped
      | Some m \<Rightarrow>
          Some (Block BLOCK_PLUGIN
                  (''Plugin: '' @ plugin_name pdef @ '' ('' @ plugin_id pdef @ '')'')
                  [(''plugin_id'', VStr (plugin_id pdef))] (Some (groupdict m names)) []))"

text \<open>
  One round of the loop \<^verbatim>\<open>for raw in lines\<close>, in three parts.  \<open>parse_statement_tail\<close> is the
  chain of recognizers from \<^verbatim>\<open>re_next\<close> down to the raw fallback, \<open>parse_statement\<close> the
  recognizers before it, and \<open>parse_line\<close> the whole round.  The only place that can raise is
  the conversion \<^verbatim>\<open>int(...)\<close> of the seconds of a timer.
\<close>

definition parse_statement_tail :: "plugin_pattern list \<Rightarrow> string \<Rightarrow> string \<Rightarrow> pstate \<Rightarrow> error + pstate" where
  "parse_statement_tail plugin_patterns line stripped st =
   (case re_match re_next stripped of
      Some m \<Rightarrow>
        (let suffix = strip (group_str m 1);
             label = ''next'' @ (if suffix \<noteq> [] then '' '' @ suffix else [])
         in Inr (add_block (Block BLOCK_NEXT label [(''expr'', VStr suffix)] None []) st))
    | None \<Rightarrow>
   (case re_match re_if stripped of
      Some m \<Rightarrow>
        (let expr = strip (group_str m 1)
         in Inr (add_and_push (Block BLOCK_IF (''if ('' @ expr @ '')'') [(''expr'', VStr expr)] None []) st))
    | None \<Rightarrow>
   (case re_match re_elsif stripped of
      Some m \<Rightarrow>
        (let expr = strip (group_str m 1);
             st = (if top_type st = Some BLOCK_IF \<or> top_type st = Some BLOCK_ELSIF then pop st else st)
         in Inr (add_and_push (Block BLOCK_ELSIF (''elsif ('' @ expr @ '')'') [(''expr'', VStr expr)] None []) st))
    | None \<Rightarrow>
   (case re_match re_else stripped of
      Some m \<Rightarrow>
        (let st = (if top_type st = Some BLOCK_IF \<or> top_type st = Some BLOCK_ELSIF then pop st else st)
         in Inr (add_and_push (Block BLOCK_ELSE ''else'' [] None []) st))
    | None \<Rightarrow>
   (case re_match re_while stripped of
      Some m \<Rightarrow>
        (let expr = strip (group_str m 1)
         in Inr (add_and_push (Block BLOCK_WHILE (''while ('' @ expr @ '')'') [(''expr'', VStr expr)] None []) st))
    | None \<Rightarrow>
   (case re_match re_foreach stripped of
      Some m \<Rightarrow>
        (let var_name = strip (group_str m 1);
             list_expr = strip (group_str m 2)
         in Inr (add_and_push
                   (Block BLOCK_FOREACH (''foreach my '' @ var_name @ '' ('' @ list_expr @ '')'')
                      [(''var_name'', VStr var_name), (''list_expr'', VStr list_expr)] None []) st))
    | None \<Rightarrow>
   (case re_match re_for stripped of
      Some m \<Rightarrow>
        (let var_name = group_str m 1;
             start = strip (group_str m 2);
             end_expr = strip (group_str m 4);
             cmp_op = strip (group_str m 3);
             inc_expr = strip (group_str m 5);
             start_v = to_int_or_str start;
             end_v = to_int_or_str end_expr
         in Inr (add_and_push
                   (Block BLOCK_FOR
                      (''for ('' @ var_name @ ''='' @ start @ ''..'' @ end_expr @ '' '' @ cmp_op @ '' ''
                         @ inc_expr @ '')'')
                      [(''var_name'', VStr var_name), (''start'', start_v), (''end'', end_v),
                       (''cmp_op'', VStr cmp_op), (''inc_expr'', VStr inc_expr)] None []) st))
    | None \<Rightarrow>
   (case re_match re_settimer stripped of
      Some m \<Rightarrow>
        (let name = group_str m 1;
             sec = filter (\<lambda>c. c \<noteq> CHR ''_'') (group_str m 2)
         in case (if isdigit sec then py_int_str sec else Inr 10) of
              Inl e \<Rightarrow> Inl e
            | Inr sec_val \<Rightarrow>
                Inr (add_block
                       (Block BLOCK_TIMER
                          (''Set timer '' @ [DQ] @ name @ [DQ] @ '' to '' @ str_int sec_val @ ''s'')
                          [(''name'', VStr name), (''seconds'', VInt sec_val)] None []) st))
    | None \<Rightarrow>
   (case re_match re_quest stripped of
      Some m \<Rightarrow>
        (let fn = strip (group_str m 1);
             args = strip (group_str m 2)
         in Inr (add_block
                   (Block BLOCK_QUEST_CALL (''quest::'' @ fn @ ''('' @ args @ '')'')
                      [(''quest_fn'', VStr fn), (''args'', VStr args)] None []) st))
    | None \<Rightarrow>
   (case re_match re_my stripped of
      Some m \<Rightarrow>
        (let var_name = group_str m 1;
             value = strip (case group m 2 of None \<Rightarrow> [] | Some g \<Rightarrow> g)
         in Inr (add_block
                   (Block BLOCK_MY_VAR (''my '' @ var_name @ (if value \<noteq> [] then '' = '' @ value else []))
                      ([(''var_name'', VStr var_name)] @ (if value \<noteq> [] then [(''value'', VStr value)] else []))
                      None []) st))
    | None \<Rightarrow>
   (case re_match re_our stripped of
      Some m \<Rightarrow>
        (let var_name = group_str m 1;
             value = strip (case group m 2 of None \<Rightarrow> [] | Some g \<Rightarrow> g)
         in Inr (add_block
                   (Block BLOCK_OUR_VAR (''our '' @ var_name @ (if value \<noteq> [] then '' = '' @ value else []))
                      ([(''var_name'', VStr var_name)] @ (if value \<noteq> [] then [(''value'', VStr value)] else []))
                      None []) st))
    | None \<Rightarrow>
   (case re_match re_bucket_set stripped of
      Some m \<Rightarrow>
        (let key = group_str m 1;
             value = group_str m 2
         in Inr (add_block
                   (Block BLOCK_SET_BUCKET (''Set bucket '' @ [DQ] @ key @ [DQ])
                      [(''key'', VStr key), (''value'', VStr value)] None []) st))
    | None \<Rightarrow>
   (case re_match re_bucket_get stripped of
      Some m \<Rightarrow>
        (let var_name = group_str m 1;
             key = group_str m 2
         in Inr (add_block
                   (Block BLOCK_GET_BUCKET (''Get bucket '' @ [DQ] @ key @ [DQ] @ '' into '' @ var_name)
                      [(''key'', VStr key), (''var_name'', VStr var_name)] None []) st))
    | None \<Rightarrow>
   (case re_match re_bucket_delete stripped of
      Some m \<Rightarrow>
        (let key = group_str m 1
         in Inr (add_block
                   (Block BLOCK_DELETE_BUCKET (''Delete bucket '' @ [DQ] @ key @ [DQ])
                      [(''key'', VStr key)] None []) st))
    | None \<Rightarrow>
   (case re_match re_array_assign stripped of
      Some m \<Rightarrow>
        (let lhs = strip (group_str m 1);
             value = strip (group_str m 2)
         in Inr (add_block
                   (Block BLOCK_ARRAY_ASSIGN (lhs @ '' = '' @ value)
                      [(''lhs'', VStr lhs), (''value'', VStr value)] None []) st))
    | None \<Rightarrow>
   (case re_match re_setvar stripped of
      Some m \<Rightarrow>
        (let var_name = group_str m 1;
             value = strip (group_str m 2)
         in Inr (add_block
                   (Block BLOCK_SET_VAR (''Set '' @ var_name @ '' = '' @ value)
                      [(''var_name'', VStr var_name), (''value'', VStr value)] None []) st))
    | None \<Rightarrow>
   (case re_match re_method stripped of
      Some m \<Rightarrow>
        (let target = group_str m 1;
             method = group_str m 2;
             args = strip (group_str m 3);
             label = (if args \<noteq> [] then target @ ''->'' @ method @ ''('' @ args @ '')''
                      else target @ ''->'' @ method @ ''()'')
         in Inr (add_block
                   (Block BLOCK_METHOD label
                      [(''target'', VStr target), (''method'', VStr method), (''args'', VStr args)] None []) st))
    | None \<Rightarrow>
   (case re_match re_return stripped of
      Some m \<Rightarrow>
        (let val = strip (group_str m 1);
             label = (if val \<noteq> [] then ''return '' @ val else ''return'')
         in Inr (add_block (Block BLOCK_RETURN label [(''value'', VStr val)] None []) st))
    | None \<Rightarrow>
   (case match_plugins plugin_patterns stripped of
      Some b \<Rightarrow> Inr (add_block b st)
    | None \<Rightarrow>
        Inr (add_block (Block BLOCK_RAW_PERL ''Raw Perl'' [(''code'', VStr line)] None []) st)
   )))))))))))))))))))"

definition start_custom_sub :: "string \<Rightarrow> string \<Rightarrow> pstate \<Rightarrow> pstate" where
  \<comment> \<open>the branch of a \<^verbatim>\<open>sub\<close> whose name does not start with \<^verbatim>\<open>EVENT_\<close>\<close>
  "start_custom_sub sub_name line st =
     (let st = flush_comment st;
          st = st\<lparr>custom_sub_name := Some sub_name, custom_sub_lines := [line],
                  custom_sub_depth := brace_delta line\<rparr>
      in if custom_sub_depth st \<le> 0 then flush_custom_sub st else st)"

definition parse_statement :: "plugin_pattern list \<Rightarrow> string \<Rightarrow> string \<Rightarrow> pstate \<Rightarrow> error + pstate" where
  "parse_statement plugin_patterns line stripped st =
   (case re_match re_multiline_decl_start stripped of
      Some m \<Rightarrow>
        (let st = flush_comment st;
             st = st\<lparr>multiline_decl_kind := Some (group_str m 1),
                     multiline_var_name := Some (group_str m 2),
                     multiline_lines := [line]\<rparr>
         in Inr (if endswith stripped '');'' then flush_multiline_decl st else st))
    | None \<Rightarrow>
   (case re_match re_sub_event stripped of
      Some m \<Rightarrow>
        (let event_name = strip (group_str m 1)
         in Inr (add_and_push (Block BLOCK_EVENT event_name [(''event_name'', VStr event_name)] None []) st))
    | None \<Rightarrow>
   (case re_match re_sub_any stripped of
      Some m \<Rightarrow>
        (let sub_name = strip (group_str m 1)
         in if \<not> startswith sub_name ''EVENT_'' then Inr (start_custom_sub sub_name line st)
            else parse_statement_tail plugin_patterns line stripped st)
    | None \<Rightarrow> parse_statement_tail plugin_patterns line stripped st)))"

definition parse_line :: "plugin_pattern list \<Rightarrow> pstate \<Rightarrow> string \<Rightarrow> error + pstate" where
  "parse_line plugin_patterns st raw =
     (let line = rev (dropWhile (\<lambda>c. c = NL) (rev raw));
          stripped = strip line
      in if custom_sub_name st \<noteq> None then
           (let st = st\<lparr>custom_sub_lines := custom_sub_lines st @ [line],
                        custom_sub_depth := custom_sub_depth st + brace_delta line\<rparr>
            in Inr (if custom_sub_depth st \<le> 0 then flush_custom_sub st else st))
         else if multiline_decl_kind st \<noteq> None then
           (let st = st\<lparr>multiline_lines := multiline_lines st @ [line]\<rparr>
            in Inr (if endswith stripped '');'' then flush_multiline_decl st else st))
         else if stripped = [] then Inr (flush_comment st)
         else if startswith stripped ''#'' then
           Inr (st\<lparr>comment_accum :=
                     comment_accum st @ [strip (dropWhile (\<lambda>c. c = CHR ''#'') stripped)]\<rparr>)
         else
           (let st = flush_comment st
            in if startswith stripped ''}'' then Inr (if p_stack st \<noteq> [] then pop st else st)
               else parse_statement plugin_patterns line stripped st))"

fun parse_lines :: "plugin_pattern list \<Rightarrow> pstate \<Rightarrow> string list \<Rightarrow> error + pstate" where
  "parse_lines plugin_patterns st [] = Inr st"
| "parse_lines plugin_patterns st (raw # lines) =
     (case parse_line plugin_patterns st raw of
        Inl e \<Rightarrow> Inl e
      | Inr st' \<Rightarrow> parse_lines plugin_patterns st' lines)"

definition initial_state :: pstate where
  "initial_state =
     \<lparr>p_blocks = [], p_stack = [], multiline_decl_kind = None, multiline_var_name = None,
      multiline_lines = [], custom_sub_name = None, custom_sub_lines = [], custom_sub_depth = 0,
      comment_accum = []\<rparr>"

definition parse_perl_to_blocks :: "string \<Rightarrow> plugin_pattern list \<Rightarrow> error + block list" where
  "parse_perl_to_blocks perl_text plugin_patterns =
     (case parse_lines plugin_patterns initial_state (splitlines perl_text) of
        Inl e \<Rightarrow> Inl e
      | Inr st \<Rightarrow> Inr (p_blocks (flush_comment st)))"




section \<open>Validation heuristics: the balance scanners\<close>

text \<open>
  \<^verbatim>\<open>_unbalanced_quotes(s)\<close>: the loop over the characters of \<^verbatim>\<open>s\<close> with the three flags
  \<^verbatim>\<open>in_single\<close>, \<^verbatim>\<open>in_double\<close>, \<^verbatim>\<open>esc\<close>; the result is \<^verbatim>\<open>in_single or in_double\<close>.
\<close>

fun uq_loop :: "bool \<Rightarrow> bool \<Rightarrow> bool \<Rightarrow> string \<Rightarrow> bool" where
  "uq_loop in_single in_double esc [] = (in_single \<or> in_double)"
| "uq_loop in_single in_double esc (c # cs) =
     (if esc then uq_loop in_single in_double False cs
      else if c = BSL then uq_loop in_single in_double True cs
      else if c = SQ \<and> \<not> in_double then uq_loop (\<not> in_single) in_double False cs
      else if c = DQ \<and> \<not> in_single then uq_loop in_single (\<not> in_double) False cs
      else uq_loop in_single in_double False cs)"

definition unbalanced_quotes :: "string \<Rightarrow> bool" where
  "unbalanced_quotes s = uq_loop False False False s"

text \<open>
  \<^verbatim>\<open>_balanced_pairs(s, open_ch, close_ch)\<close> returns \<^verbatim>\<open>(ok, delta)\<close>.  The loop returns
  \<^verbatim>\<open>(False, stack)\<close> as soon as the counter is negative, and \<^verbatim>\<open>(stack == 0, stack)\<close> at
  the end of the string.
\<close>

fun bp_loop :: "char \<Rightarrow> char \<Rightarrow> int \<Rightarrow> bool \<Rightarrow> bool \<Rightarrow> bool \<Rightarrow> string \<Rightarrow> bool \<times> int" where
  "bp_loop open_ch close_ch stack in_sq in_dq esc [] = (stack = 0, stack)"
| "bp_loop open_ch close_ch stack in_sq in_dq esc (c # cs) =
     (if esc then bp_loop open_ch close_ch stack in_sq in_dq False cs
      else if c = BSL then bp_loop open_ch close_ch stack in_sq in_dq True cs
      else if c = SQ \<and> \<not> in_dq then bp_loop open_ch close_ch stack (\<not> in_sq) in_dq False cs
      else if c = DQ \<and> \<not> in_sq then bp_loop open_ch close_ch stack in_sq (\<not> in_dq) False cs
      else if in_sq \<or> in_dq then bp_loop open_ch close_ch stack in_sq in_dq False cs
      else if c = open_ch then bp_loop open_ch close_ch (stack + 1) in_sq in_dq False cs
      else if c = close_ch then
        (if stack - 1 < 0 then (False, stack - 1)
         else bp_loop open_ch close_ch (stack - 1) in_sq in_dq False cs)
      else bp_loop open_ch close_ch stack in_sq in_dq False cs)"

definition balanced_pairs :: "string \<Rightarrow> char \<Rightarrow> char \<Rightarrow> bool \<times> int" where
  "balanced_pairs s open_ch close_ch =
     (if s = [] then (True, 0) else bp_loop open_ch close_ch 0 False False False s)"

text \<open>
  \<^verbatim>\<open>_has_suspicious_tokens(s)\<close>: the list of warning texts.
\<close>

definition has_suspicious_tokens :: "string \<Rightarrow> string list" where
  "has_suspicious_tokens s =
     (if s = [] then []
      else
        (if contains s ''$timer eq'' \<and> contains s [DQ] \<and> contains s (''$timer eq '' @ [DQ])
            \<and> \<not> contains (case after_first ''$timer eq'' s of None \<Rightarrow> [] | Some r \<Rightarrow> r) [DQ]
         then [''Possible malformed $timer eq '' @ [DQ] @ ''name'' @ [DQ] @ '' comparison.'']
         else [])
        @ (if contains s '';;'' then [''Contains '' @ [SQ] @ '';;'' @ [SQ] @ '' (double semicolon).''] else [])
        @ (if list_ex (\<lambda>line. endswith (rstrip line) [BSL]) (splitlines s)
           then [''Line ends with '' @ [SQ, BSL, SQ] @ '' (possible accidental escape).'']
           else []))"

text \<open>
  A \<^verbatim>\<open>ValidationIssue\<close>.  Where the program formats a caught exception \<^verbatim>\<open>e\<close> at the end of
  the message (\<^verbatim>\<open>f"...: {e}"\<close>), \<open>message\<close> is the text before it and \<open>exc\<close> the exception;
  \<open>block_ref\<close> is the block the issue refers to.
\<close>

datatype ValidationIssue =
  ValidationIssue (level: string) (message: string) (exc: "error option") (wher: string)
                  (block_ref: "block option")

definition pair_issue ::
  "string \<Rightarrow> string \<Rightarrow> string \<Rightarrow> string \<Rightarrow> bool \<times> int \<Rightarrow> string \<Rightarrow> block option \<Rightarrow> ValidationIssue list"
where
  \<comment> \<open>the issue for one result \<^verbatim>\<open>(ok, delta)\<close> of \<^verbatim>\<open>_balanced_pairs\<close>\<close>
  "pair_issue severity too_many missing unbalanced r where_label ref =
     (if \<not> fst r then
        [ValidationIssue severity (if snd r < 0 then too_many else missing) None where_label ref]
      else if snd r \<noteq> 0 then [ValidationIssue severity unbalanced None where_label ref]
      else [])"

definition lint_text ::
  "string \<Rightarrow> string \<Rightarrow> string \<Rightarrow> block option \<Rightarrow> bool \<Rightarrow> bool \<Rightarrow> bool \<Rightarrow> ValidationIssue list"
where
  "lint_text text where_label severity ref check_quotes check_parens check_braces =
     (if text = [] then []
      else
        (if check_quotes \<and> unbalanced_quotes text
         then [ValidationIssue severity (''Unbalanced quotes (missing '' @ [DQ] @ '' or '' @ [SQ] @ '').'')
                 None where_label ref]
         else [])
        @ (if check_parens
           then pair_issue severity
                  (''Too many '' @ [SQ] @ '')'' @ [SQ] @ '' (parentheses close before open).'')
                  (''Unbalanced parentheses (missing '' @ [SQ] @ '')'' @ [SQ] @ '').'')
                  (''Unbalanced parentheses (missing '' @ [SQ] @ '')'' @ [SQ] @ '').'')
                  (balanced_pairs text CHR ''('' CHR '')'') where_label ref
           else [])
        @ (if check_braces
           then pair_issue severity
                  (''Too many '' @ [SQ] @ ''}'' @ [SQ] @ '' (brace close before open).'')
                  (''Unbalanced braces (missing '' @ [SQ] @ ''}'' @ [SQ] @ '').'')
                  (''Unbalanced braces (missing '' @ [SQ] @ ''}'' @ [SQ] @ '').'')
                  (balanced_pairs text CHR ''{'' CHR ''}'') where_label ref
           else [])
        @ map (\<lambda>w. ValidationIssue ''info'' w None where_label ref) (has_suspicious_tokens text))"

definition lint_val ::
  "pval \<Rightarrow> string \<Rightarrow> string \<Rightarrow> block option \<Rightarrow> bool \<Rightarrow> bool \<Rightarrow> bool \<Rightarrow> error + ValidationIssue list"
where
  \<comment> \<open>\<^verbatim>\<open>lint_text\<close> on a parameter value: a falsy value returns at once, a number cannot be scanned\<close>
  "lint_val v where_label severity ref check_quotes check_parens check_braces =
     (if \<not> truthy v then Inr []
      else case v of
             VStr s \<Rightarrow> Inr (lint_text s where_label severity ref check_quotes check_parens check_braces)
           | _ \<Rightarrow> Inl TypeError)"

fun concat_e :: "('e + 'a list) list \<Rightarrow> 'e + 'a list" where
  "concat_e [] = Inr []"
| "concat_e (x # xs) =
     (case x of
        Inl e \<Rightarrow> Inl e
      | Inr a \<Rightarrow> (case concat_e xs of Inl e \<Rightarrow> Inl e | Inr b \<Rightarrow> Inr (a @ b)))"

text \<open>Step 1 and 2: the structure checks on the top-level blocks.\<close>

definition event_names :: "block list \<Rightarrow> error + string list" where
  \<comment> \<open>\<^verbatim>\<open>(b.params.get("event_name") or "").strip()\<close> of every top-level event block\<close>
  "event_names blocks =
     concat_e (map (\<lambda>b. map_sum id (\<lambda>ev. [ev]) (strip_val (por (dget (params b) ''event_name'' VNone) (VStr []))))
                 (filter (\<lambda>b. btype b = BLOCK_EVENT) blocks))"

fun bump :: "(string \<times> nat) list \<Rightarrow> string \<Rightarrow> (string \<times> nat) list" where
  \<comment> \<open>\<^verbatim>\<open>counts[ev] = counts.get(ev, 0) + 1\<close> on a dictionary in insertion order\<close>
  "bump [] ev = [(ev, 1)]"
| "bump ((k, n) # cs) ev = (if k = ev then (k, n + 1) # cs else (k, n) # bump cs ev)"

definition count_events :: "string list \<Rightarrow> (string \<times> nat) list" where
  "count_events evs = foldl bump [] (filter (\<lambda>ev. ev \<noteq> []) evs)"

definition duplicate_issues :: "(string \<times> nat) list \<Rightarrow> ValidationIssue list" where
  "duplicate_issues counts =
     map (\<lambda>(ev, n). ValidationIssue ''warn''
            (''Duplicate top-level handler: '' @ ev @ '' appears '' @ dec_nat n @ '' times (often accidental).'')
            None ev None)
       (filter (\<lambda>(ev, n). n > 1) counts)"

text \<open>Step 3: the plugin checks of one block.\<close>

definition plugin_issues :: "registry \<Rightarrow> block \<Rightarrow> ValidationIssue list" where
  "plugin_issues plugin_registry b =
     (if btype b \<noteq> BLOCK_PLUGIN then []
      else
        (let pid = dget (params b) ''plugin_id'' VNone in
         if \<not> truthy pid
         then [ValidationIssue ''error'' ''Plugin block has no plugin selected.'' None (label b) (Some b)]
         else
           (case registry_get plugin_registry pid of
              None \<Rightarrow>
                [ValidationIssue ''error''
                   (''Unknown plugin_id '' @ [SQ] @ py_str pid @ [SQ] @ '' (not found in plugins.json).'')
                   None (label b) (Some b)]
            | Some pdef \<Rightarrow>
                (case render_plugin_template (perl_template pdef)
                        (case plugin_params b of None \<Rightarrow> [] | Some d \<Rightarrow> d) of
                   Inl e \<Rightarrow>
                     [ValidationIssue ''error'' ''Plugin template render failed: '' (Some e) (label b) (Some b)]
                 | Inr code \<Rightarrow> []))))"

text \<open>Step 4: the timer checks of one block, and the names that \<^verbatim>\<open>timer_sets\<close> collects.\<close>

definition timer_name :: "block \<Rightarrow> error + string" where
  "timer_name b = strip_val (por (dget (params b) ''name'' VNone) (VStr []))"

definition timer_issues :: "block \<Rightarrow> error + ValidationIssue list" where
  "timer_issues b =
     (if btype b \<noteq> BLOCK_TIMER then Inr []
      else
        (case timer_name b of
           Inl e \<Rightarrow> Inl e
         | Inr name \<Rightarrow>
             Inr ((if name = []
                   then [ValidationIssue ''error'' ''Timer block missing timer name.'' None (label b) (Some b)]
                   else [])
                  @ (let secs = dget (params b) ''seconds'' VNone in
                     if secs = VNone
                     then [ValidationIssue ''error'' ''Timer seconds must be >= 0.'' None (label b) (Some b)]
                     else
                       (case py_int secs of
                          Inl e \<Rightarrow>
                            [ValidationIssue ''error'' ''Timer seconds is not an integer.'' None (label b) (Some b)]
                        | Inr n \<Rightarrow>
                            if n < 0
                            then [ValidationIssue ''error'' ''Timer seconds must be >= 0.'' None (label b) (Some b)]
                            else [])))))"

definition timer_sets :: "block list \<Rightarrow> string list" where
  \<comment> \<open>the names added to \<^verbatim>\<open>timer_sets\<close> by the timer blocks of the walk\<close>
  "timer_sets bs =
     concat (map (\<lambda>b. case timer_name b of Inr name \<Rightarrow> (if name \<noteq> [] then [name] else []) | Inl e \<Rightarrow> [])
               (filter (\<lambda>b. btype b = BLOCK_TIMER) bs))"

definition has_event_timer :: "block list \<Rightarrow> bool" where
  "has_event_timer blocks =
     list_ex (\<lambda>b. btype b = BLOCK_EVENT \<and> map_of (params b) ''event_name'' = Some (VStr ''EVENT_TIMER'')) blocks"

text \<open>Step 5: the lint of one block.\<close>

definition block_lint :: "block \<Rightarrow> error + ValidationIssue list" where
  "block_lint b =
     (if btype b = BLOCK_RAW_PERL then
        lint_val (por (dget (params b) ''code'' VNone) (VStr [])) (label b) ''warn'' (Some b) True False False
      else
        concat_e
          [if btype b = BLOCK_IF \<or> btype b = BLOCK_WHILE then
             (case strip_val (por (dget (params b) ''expr'' VNone) (VStr [])) of
                Inl e \<Rightarrow> Inl e
              | Inr expr \<Rightarrow>
                  if expr = []
                  then Inr [ValidationIssue ''error'' ''Empty condition expression.'' None (label b) (Some b)]
                  else Inr (lint_text expr (label b) ''warn'' (Some b) True True True))
           else Inr [],
           if btype b = BLOCK_QUEST_CALL then
             lint_val (por (dget (params b) ''args'' VNone) (VStr [])) (label b) ''warn'' (Some b) True True True
           else Inr []])"

text \<open>Step 6: the lint of the whole generated script.\<close>

definition whole_script_issues :: "block list \<Rightarrow> registry \<Rightarrow> ValidationIssue list" where
  "whole_script_issues blocks plugin_registry =
     (case generate_perl blocks plugin_registry None of
        Inl e \<Rightarrow> [ValidationIssue ''error'' ''Failed to generate Perl for linting: '' (Some e) ''root'' None]
      | Inr perl \<Rightarrow>
          (if unbalanced_quotes perl
           then [ValidationIssue ''error'' ''Whole script: unbalanced quotes.'' None ''root'' None]
           else [])
          @ pair_issue ''error'' (''Whole script: too many '' @ [SQ] @ '')'' @ [SQ] @ ''.'')
              (''Whole script: missing '' @ [SQ] @ '')'' @ [SQ] @ ''.'')
              ''Whole script: unbalanced parentheses.''
              (balanced_pairs perl CHR ''('' CHR '')'') ''root'' None
          @ pair_issue ''error'' (''Whole script: too many '' @ [SQ] @ ''}'' @ [SQ] @ ''.'')
              (''Whole script: missing '' @ [SQ] @ ''}'' @ [SQ] @ ''.'')
              ''Whole script: unbalanced braces.''
              (balanced_pairs perl CHR ''{'' CHR ''}'') ''root'' None)"

definition validate_blocks :: "block list \<Rightarrow> registry \<Rightarrow> error + ValidationIssue list" where
  "validate_blocks blocks plugin_registry =
     concat_e
       [Inr (if filter (\<lambda>b. btype b = BLOCK_EVENT) blocks = []
             then [ValidationIssue ''warn'' ''No EVENT block found (script will do nothing).'' None ''root'' None]
             else []),
        map_sum id (\<lambda>evs. duplicate_issues (count_events evs)) (event_names blocks),
        Inr (concat (map (plugin_issues plugin_registry) (walk_blocks blocks))),
        concat_e (map timer_issues (walk_blocks blocks)),
        Inr (if timer_sets (walk_blocks blocks) \<noteq> [] \<and> \<not> has_event_timer blocks
             then [ValidationIssue ''warn'' ''You set timers but have no EVENT_TIMER handler.'' None ''root'' None]
             else []),
        concat_e (map block_lint (walk_blocks blocks)),
        Inr (whole_script_issues blocks plugin_registry)]"

section \<open>Properties\<close>

text \<open>
  C5.  The balance scanner on the three strings of the specification, for the pair of
  parentheses: \<^verbatim>\<open>(a (b)\<close> is not balanced and the counter ends at 1 (a closer is
  missing); \<^verbatim>\<open>a) (b\<close> is not balanced and the counter is -1 (too many closers); the
  single-quoted \<^verbatim>\<open>'it\'s (ok)'\<close>, whose inner apostrophe is escaped by a backslash, is
  balanced with counter 0, and its quotes are balanced too.
\<close>

theorem balance_examples:
  "balanced_pairs ''(a (b)'' CHR ''('' CHR '')'' = (False, 1)
   \<and> balanced_pairs ''a) (b'' CHR ''('' CHR '')'' = (False, - 1)
   \<and> balanced_pairs ([SQ] @ ''it'' @ [BSL, SQ] @ ''s (ok)'' @ [SQ]) CHR ''('' CHR '')'' = (True, 0)
   \<and> \<not> unbalanced_quotes ([SQ] @ ''it'' @ [BSL, SQ] @ ''s (ok)'' @ [SQ])"
  by (simp add: balanced_pairs_def unbalanced_quotes_def)

subsection \<open>Helper lemmas\<close>

lemma render_all_append:
  "render_all plugins (xs @ ys) i =
     (case render_all plugins xs i of
        Inl e \<Rightarrow> Inl e
      | Inr a \<Rightarrow> (case render_all plugins ys i of Inl e \<Rightarrow> Inl e | Inr b \<Rightarrow> Inr (a @ b)))"
  by (induction xs) (auto split: sum.splits)

lemma plugin_no_id_block:
  "map_of ps ''plugin_id'' = None \<Longrightarrow> render_block plugins (Block BLOCK_PLUGIN l ps pp cs) i = Inr []"
  by (simp add: is_container_def render_leaf_def dget_def truthy_def)


lemma rstrip_snoc: "\<not> is_space c \<Longrightarrow> rstrip (s @ [c]) = s @ [c]"
  by (simp add: rstrip_def)

lemma rstrip_idem: "rstrip (rstrip s) = rstrip s"
  unfolding rstrip_def by (simp add: dropWhile_idem)

lemma endswith_single: "endswith s [c] \<longleftrightarrow> s \<noteq> [] \<and> last s = c"
proof (cases s rule: rev_cases)
  case Nil then show ?thesis by (simp add: endswith_def)
next
  case (snoc ys y) then show ?thesis by (simp add: endswith_def)
qed

lemma rstrip_last: "rstrip s \<noteq> [] \<Longrightarrow> \<not> is_space (last (rstrip s))"
  unfolding rstrip_def
  by (metis (full_types) dropWhile_eq_Nil_conv hd_dropWhile last_rev rev.simps(1) rev_rev_ident)

lemma rstrip_fix: "s = [] \<or> \<not> is_space (last s) \<Longrightarrow> rstrip s = s"
  by (cases s rule: rev_cases) (auto simp: rstrip_def)

lemma semi_nonspace: "\<not> is_space CHR '';''"
  by (simp add: is_space_def)

lemma strip_rstrip_blank: "strip (rstrip s) = [] \<longleftrightarrow> strip s = []"
  by (simp add: strip_def rstrip_idem)

lemma concat_e_Inr:
  "concat_e xs = Inr r \<Longrightarrow> x \<in> set xs \<Longrightarrow> \<exists>a. x = Inr a \<and> set a \<subseteq> set r"
proof (induction xs arbitrary: r)
  case Nil
  then show ?case by simp
next
  case (Cons y ys)
  from Cons.prems(1) obtain a b where y: "y = Inr a" and ys: "concat_e ys = Inr b" and r: "r = a @ b"
    by (auto split: sum.splits)
  show ?case
  proof (cases "x = y")
    case True
    with y r show ?thesis by auto
  next
    case False
    with Cons.prems(2) have "x \<in> set ys" by simp
    from Cons.IH [OF ys this] r show ?thesis by auto
  qed
qed

lemma rendered_error:
  assumes "\<And>i. \<exists>e. render_block plugins b i = Inl e"
  shows "b \<in> set (rendered bs) \<Longrightarrow> \<exists>e. render_all plugins bs i = Inl e"
proof (induction bs arbitrary: i rule: rendered.induct)
  case 1
  then show ?case by simp
next
  case (2 t l ps pp cs bs)
  let ?x = "Block t l ps pp cs"
  from "2.prems" consider "b = ?x" | "is_container t" "b \<in> set (rendered cs)" | "b \<in> set (rendered bs)"
    by (auto split: if_splits)
  then show ?case
  proof cases
    case 1
    with assms [of i] show ?thesis by (auto simp del: render_block.simps)
  next
    case 2
    with "2.IH"(1) [of "i + 1"] obtain e where "render_all plugins cs (i + 1) = Inl e" by blast
    with 2 show ?thesis by simp
  next
    case 3
    with "2.IH"(2) [of i] obtain e where "render_all plugins bs i = Inl e" by blast
    then show ?thesis by (auto split: sum.splits simp del: render_block.simps)
  qed
qed

lemma validate_parts:
  assumes "validate_blocks blocks reg = Inr issues"
  shows "set (concat (map (plugin_issues reg) (walk_blocks blocks))) \<subseteq> set issues"
    and "set (whole_script_issues blocks reg) \<subseteq> set issues"
    and "\<exists>ts. concat_e (map timer_issues (walk_blocks blocks)) = Inr ts \<and> set ts \<subseteq> set issues"
    and "timer_sets (walk_blocks blocks) \<noteq> [] \<and> \<not> has_event_timer blocks \<Longrightarrow>
          ValidationIssue ''warn'' ''You set timers but have no EVENT_TIMER handler.'' None ''root'' None \<in> set issues"
    and "\<exists>evs. event_names blocks = Inr evs \<and> set (duplicate_issues (count_events evs)) \<subseteq> set issues"
  using assms unfolding validate_blocks_def
  by (auto split: sum.splits simp: map_sum_def)

lemma strip_one_semicolon_cases:
  "(\<forall>w. rstrip v = w @ '';'' \<longrightarrow> strip_one_semicolon v = rstrip w)
   \<and> (\<not> endswith (rstrip v) '';'' \<longrightarrow> strip_one_semicolon v = v)"
  by (auto simp: strip_one_semicolon_def endswith_single)

lemma strip_one_semicolon_rstripped:
  "rstrip v = v \<or> endswith (rstrip v) '';'' \<Longrightarrow> rstrip (strip_one_semicolon v) = strip_one_semicolon v"
  by (auto simp: strip_one_semicolon_def rstrip_idem)

lemma strip_one_semicolon_reappend:
  "strip_one_semicolon (e @ '';'') = rstrip e"
  by (simp add: strip_one_semicolon_def rstrip_snoc semi_nonspace endswith_single)

lemma decl_line_value:
  "decl_line kw d [(''var_name'', VStr n), (''value'', VStr v)] =
     (if strip (strip_one_semicolon v) = [] then kw @ '' '' @ n @ '';''
      else kw @ '' '' @ n @ '' = '' @ strip_one_semicolon v @ '';'')"
  by (simp add: decl_line_def dget_def py_str_def Let_def)

lemma not_doubled:
  assumes "\<forall>w. rstrip v = w @ '';'' \<longrightarrow> \<not> endswith (rstrip w) '';''"
  shows "\<not> endswith (strip_one_semicolon v) '';''"
proof (cases "endswith (rstrip v) '';''")
  case True
  then obtain w where w: "rstrip v = w @ '';''"
    by (metis append_butlast_last_id endswith_single)
  with assms have "\<not> endswith (rstrip w) '';''" by blast
  with w True show ?thesis by (simp add: strip_one_semicolon_def)
next
  case False
  have "endswith v '';'' \<Longrightarrow> rstrip v = v"
    by (rule rstrip_fix) (auto simp: endswith_single semi_nonspace)
  with False show ?thesis by (auto simp: strip_one_semicolon_def)
qed


subsection \<open>The claims\<close>

text \<open>
  C10.  A plugin block whose parameters have no \<^verbatim>\<open>plugin_id\<close> emits no line, whatever its other
  fields and at every indentation, and the rest of the tree renders as if the block were
  not there: a list of blocks renders as the list without it does (the same lines or the
  same exception), and so does the whole script.
\<close>

theorem plugin_without_id_skipped:
  assumes "map_of ps ''plugin_id'' = None"
  shows "render_block plugins (Block BLOCK_PLUGIN l ps pp cs) indent = Inr []
       \<and> render_all plugins (bs1 @ Block BLOCK_PLUGIN l ps pp cs # bs2) indent
           = render_all plugins (bs1 @ bs2) indent
       \<and> generate_perl (bs1 @ Block BLOCK_PLUGIN l ps pp cs # bs2) plugins npc_id
           = generate_perl (bs1 @ bs2) plugins npc_id"
proof -
  have b: "render_block plugins (Block BLOCK_PLUGIN l ps pp cs) i = Inr []" for i
    using assms by (rule plugin_no_id_block)
  have r: "render_all plugins (bs1 @ Block BLOCK_PLUGIN l ps pp cs # bs2) i
           = render_all plugins (bs1 @ bs2) i" for i
    by (simp add: render_all_append b split: sum.splits del: render_block.simps)
  show ?thesis using b r by (simp add: generate_perl_def)
qed



theorem plugin_without_id_skipped_witness:
  "map_of [(''plugin_params'', VNone)] ''plugin_id'' = None
   \<and> generate_perl [Block BLOCK_COMMENT ''c'' [(''text'', VStr ''hi'')] None [],
                      Block BLOCK_PLUGIN ''p'' [(''plugin_params'', VNone)] None [],
                      Block BLOCK_RETURN ''r'' [] None []] [] None
       = generate_perl [Block BLOCK_COMMENT ''c'' [(''text'', VStr ''hi'')] None [],
                        Block BLOCK_RETURN ''r'' [] None []] [] None"
proof -
  have h: "map_of [(''plugin_params'', VNone)] ''plugin_id'' = None" by simp
  from plugin_without_id_skipped [OF h, of "[]" "''p''" None "[]" 0
      "[Block BLOCK_COMMENT ''c'' [(''text'', VStr ''hi'')] None []]"
      "[Block BLOCK_RETURN ''r'' [] None []]" None] h
  show ?thesis by simp
qed

text \<open>
  C9, as amended.  For a \<^verbatim>\<open>my\<close> and an \<^verbatim>\<open>our\<close> block the generator emits one declaration line.
  From the value text it removes the trailing whitespace and exactly one trailing \<^verbatim>\<open>;\<close>,
  with the whitespace before it, when the text ends so, and leaves the text as it is
  otherwise; then it appends one \<^verbatim>\<open>;\<close>.  When the value carries at most one trailing
  terminator the text left does not end in \<^verbatim>\<open>;\<close>, so the line is not doubled-terminated.
  When the value has no trailing whitespace, or ends in a terminator, generating from the
  emitted value text (the stripped text with its \<^verbatim>\<open>;\<close>) gives the same line again.
\<close>

theorem declaration_terminator:
  "render_block plugins (Block BLOCK_MY_VAR l ps pp cs) i = Inr [emit (decl_line ''my'' ''$myvar'' ps) i]
   \<and> render_block plugins (Block BLOCK_OUR_VAR l ps pp cs) i = Inr [emit (decl_line ''our'' ''$OurVar'' ps) i]
   \<and> decl_line kw d [(''var_name'', VStr n), (''value'', VStr v)] =
       (if strip (strip_one_semicolon v) = [] then kw @ '' '' @ n @ '';''
        else kw @ '' '' @ n @ '' = '' @ strip_one_semicolon v @ '';'')
   \<and> (\<forall>w. rstrip v = w @ '';'' \<longrightarrow> strip_one_semicolon v = rstrip w)
   \<and> (\<not> endswith (rstrip v) '';'' \<longrightarrow> strip_one_semicolon v = v)
   \<and> ((\<forall>w. rstrip v = w @ '';'' \<longrightarrow> \<not> endswith (rstrip w) '';'')
        \<longrightarrow> \<not> endswith (strip_one_semicolon v) '';'')
   \<and> (rstrip v = v \<or> endswith (rstrip v) '';'' \<longrightarrow>
        decl_line kw d [(''var_name'', VStr n), (''value'', VStr (strip_one_semicolon v @ '';''))]
          = decl_line kw d [(''var_name'', VStr n), (''value'', VStr v)])"
proof -
  have a: "render_block plugins (Block BLOCK_MY_VAR l ps pp cs) i = Inr [emit (decl_line ''my'' ''$myvar'' ps) i]"
    by (simp add: is_container_def render_leaf_def)
  have b: "render_block plugins (Block BLOCK_OUR_VAR l ps pp cs) i = Inr [emit (decl_line ''our'' ''$OurVar'' ps) i]"
    by (simp add: is_container_def render_leaf_def)
  have e: "decl_line kw d [(''var_name'', VStr n), (''value'', VStr (strip_one_semicolon v @ '';''))]
          = decl_line kw d [(''var_name'', VStr n), (''value'', VStr v)]"
    if "rstrip v = v \<or> endswith (rstrip v) '';''"
    using strip_one_semicolon_rstripped [OF that]
    by (simp add: decl_line_value strip_one_semicolon_reappend)
  from a b e decl_line_value strip_one_semicolon_cases not_doubled show ?thesis by blast
qed

theorem declaration_terminator_witness:
  "rstrip ''1; '' = ''1'' @ '';'' \<and> strip_one_semicolon ''1; '' = ''1''
   \<and> \<not> endswith (strip_one_semicolon ''1; '') '';''
   \<and> decl_line ''my'' ''$myvar'' [(''var_name'', VStr ''$x''), (''value'', VStr (strip_one_semicolon ''1; '' @ '';''))]
      = decl_line ''my'' ''$myvar'' [(''var_name'', VStr ''$x''), (''value'', VStr ''1; '')]
   \<and> decl_line ''my'' ''$myvar'' [(''var_name'', VStr ''$x''), (''value'', VStr ''1; '')] = ''my $x = 1;''"
proof -
  note T = declaration_terminator [where plugins = "[]" and l = "[]" and ps = "[]" and pp = None
      and cs = "[]" and i = 0 and kw = "''my''" and d = "''$myvar''" and n = "''$x''" and v = "''1; ''"]
  have r: "rstrip ''1; '' = ''1'' @ '';''" by (simp add: rstrip_def is_space_def)
  have r1: "rstrip ''1'' = ''1''" by (simp add: rstrip_def is_space_def)
  have s1: "strip ''1'' = ''1''" by (simp add: strip_def lstrip_def rstrip_def is_space_def)
  have e: "rstrip ''1; '' = ''1; '' \<or> endswith (rstrip ''1; '') '';''" by (simp add: r endswith_def)
  have n: "\<forall>w. rstrip ''1; '' = w @ '';'' \<longrightarrow> \<not> endswith (rstrip w) '';''"
    by (simp add: r r1 endswith_def)
  from T have "\<forall>w. rstrip ''1; '' = w @ '';'' \<longrightarrow> strip_one_semicolon ''1; '' = rstrip w" by blast
  with r r1 have s: "strip_one_semicolon ''1; '' = ''1''" by metis
  from T n have nd: "\<not> endswith (strip_one_semicolon ''1; '') '';''" by blast
  from T e have idem:
    "decl_line ''my'' ''$myvar'' [(''var_name'', VStr ''$x''), (''value'', VStr (strip_one_semicolon ''1; '' @ '';''))]
      = decl_line ''my'' ''$myvar'' [(''var_name'', VStr ''$x''), (''value'', VStr ''1; '')]" by blast
  from T have "decl_line ''my'' ''$myvar'' [(''var_name'', VStr ''$x''), (''value'', VStr ''1; '')] =
       (if strip (strip_one_semicolon ''1; '') = [] then ''my'' @ '' '' @ ''$x'' @ '';''
        else ''my'' @ '' '' @ ''$x'' @ '' = '' @ strip_one_semicolon ''1; '' @ '';'')" by blast
  then have line: "decl_line ''my'' ''$myvar'' [(''var_name'', VStr ''$x''), (''value'', VStr ''1; '')] = ''my $x = 1;''"
    by (simp add: s s1)
  from r s nd idem line show ?thesis by blast
qed

text \<open>
  The claim as stated fails: a value ending in two terminators keeps one of them and the
  line ends in \<^verbatim>\<open>;;\<close>; and a value with trailing whitespace and no terminator does not
  give the same line when it is generated again from the emitted text.
\<close>

theorem declaration_terminator_counterexample:
  "render_block [] (Block BLOCK_MY_VAR ''my $x'' [(''var_name'', VStr ''$x''), (''value'', VStr ''1;;'')] None []) 0
     = Inr [''my $x = 1;;'']
   \<and> strip_one_semicolon ''1 '' @ '';'' = ''1 ;''
   \<and> render_block [] (Block BLOCK_MY_VAR ''my $x'' [(''var_name'', VStr ''$x''), (''value'', VStr ''1 '')] None []) 0
     = Inr [''my $x = 1 ;'']
   \<and> render_block [] (Block BLOCK_MY_VAR ''my $x'' [(''var_name'', VStr ''$x''), (''value'', VStr ''1 ;'')] None []) 0
     = Inr [''my $x = 1;'']"
  by code_simp

lemma plugin_block_error:
  assumes "map_of ps ''plugin_id'' = Some (VStr pid)" "pid \<noteq> []" "map_of plugins pid = Some pdef"
    and "render_plugin_template (perl_template pdef) (case pp of None \<Rightarrow> [] | Some d \<Rightarrow> d) = Inl e"
  shows "render_block plugins (Block BLOCK_PLUGIN l ps pp cs) i = Inl e"
    and "plugin_issues plugins (Block BLOCK_PLUGIN l ps pp cs) =
          [ValidationIssue ''error'' ''Plugin template render failed: '' (Some e) l
             (Some (Block BLOCK_PLUGIN l ps pp cs))]"
  using assms
  by (simp_all add: is_container_def render_leaf_def dget_def truthy_def registry_get_def plugin_issues_def)


text \<open>
  C3, as amended.  A plugin block that names a template of the registry whose rendering
  raises \<^verbatim>\<open>MissingParameter\<close> makes \<^verbatim>\<open>render_block\<close> raise that exception, and the generator does
  not catch it: generation of the whole script is aborted, with that exception when the
  blocks before it render, and with some exception wherever the block is reached.  No text
  is produced, neither a comment for the block nor the lines of the other blocks.
  Validation, when it returns, reports the condition as an error on the block, with the
  exception in the message.
\<close>

theorem plugin_render_error:
  assumes "map_of ps ''plugin_id'' = Some (VStr pid)" and "pid \<noteq> []"
    and "map_of plugins pid = Some pdef"
    and "render_plugin_template (perl_template pdef) (case pp of None \<Rightarrow> [] | Some d \<Rightarrow> d)
           = Inl (MissingParameter n)"
  shows "render_block plugins (Block BLOCK_PLUGIN l ps pp cs) i = Inl (MissingParameter n)
    \<and> (render_all plugins bs1 0 = Inr ls \<longrightarrow>
         generate_perl (bs1 @ Block BLOCK_PLUGIN l ps pp cs # bs2) plugins npc_id = Inl (MissingParameter n))
    \<and> (Block BLOCK_PLUGIN l ps pp cs \<in> set (rendered blocks) \<longrightarrow>
         (\<exists>e. generate_perl blocks plugins npc_id = Inl e))
    \<and> (Block BLOCK_PLUGIN l ps pp cs \<in> set (walk_blocks blocks)
         \<and> validate_blocks blocks plugins = Inr issues \<longrightarrow>
         ValidationIssue ''error'' ''Plugin template render failed: '' (Some (MissingParameter n)) l
           (Some (Block BLOCK_PLUGIN l ps pp cs)) \<in> set issues)"
proof -
  let ?b = "Block BLOCK_PLUGIN l ps pp cs"
  have b: "render_block plugins ?b j = Inl (MissingParameter n)" for j
    using assms by (rule plugin_block_error(1))
  have g1: "generate_perl (bs1 @ ?b # bs2) plugins npc_id = Inl (MissingParameter n)"
    if "render_all plugins bs1 0 = Inr ls"
    using that b by (simp add: generate_perl_def render_all_append del: render_block.simps)
  have g2: "\<exists>e. generate_perl blocks plugins npc_id = Inl e" if "?b \<in> set (rendered blocks)"
  proof -
    have "\<And>j. \<exists>e. render_block plugins ?b j = Inl e" using b by blast
    from rendered_error [of plugins ?b blocks 0, OF this that]
    show ?thesis by (auto simp: generate_perl_def)
  qed
  have v: "ValidationIssue ''error'' ''Plugin template render failed: '' (Some (MissingParameter n)) l
             (Some ?b) \<in> set issues"
    if "?b \<in> set (walk_blocks blocks)" "validate_blocks blocks plugins = Inr issues"
  proof -
    from plugin_block_error(2) [OF assms]
    have "plugin_issues plugins ?b =
          [ValidationIssue ''error'' ''Plugin template render failed: '' (Some (MissingParameter n)) l (Some ?b)]" .
    with that(1) have "ValidationIssue ''error'' ''Plugin template render failed: '' (Some (MissingParameter n)) l (Some ?b)
        \<in> set (concat (map (plugin_issues plugins) (walk_blocks blocks)))"
      by (auto intro!: bexI [of _ ?b])
    with validate_parts(1) [OF that(2)] show ?thesis by blast
  qed
  from b g1 g2 v show ?thesis by blast
qed


theorem plugin_render_error_witness:
  "map_of [(''plugin_id'', VStr ''p'')] ''plugin_id'' = Some (VStr ''p'')
   \<and> render_plugin_template ''plugin::Say({x});'' [] = Inl (MissingParameter ''x'')
   \<and> render_all [(''p'', PluginDef ''p'' ''Say'' ''Chat'' ''plugin::Say({x});'' [])]
        [Block BLOCK_COMMENT ''# hi'' [(''text'', VStr ''hi'')] None []] 0 = Inr [''# hi'']
   \<and> generate_perl
        ([Block BLOCK_COMMENT ''# hi'' [(''text'', VStr ''hi'')] None []]
         @ Block BLOCK_PLUGIN ''Plugin: Say (p)'' [(''plugin_id'', VStr ''p'')] (Some []) []
         # [Block BLOCK_RETURN ''return'' [(''value'', VStr [])] None []])
        [(''p'', PluginDef ''p'' ''Say'' ''Chat'' ''plugin::Say({x});'' [])] None
       = Inl (MissingParameter ''x'')
   \<and> (\<exists>issues.
        validate_blocks
          [Block BLOCK_PLUGIN ''Plugin: Say (p)'' [(''plugin_id'', VStr ''p'')] (Some []) []]
          [(''p'', PluginDef ''p'' ''Say'' ''Chat'' ''plugin::Say({x});'' [])] = Inr issues
        \<and> ValidationIssue ''error'' ''Plugin template render failed: '' (Some (MissingParameter ''x''))
            ''Plugin: Say (p)''
            (Some (Block BLOCK_PLUGIN ''Plugin: Say (p)'' [(''plugin_id'', VStr ''p'')] (Some []) []))
            \<in> set issues)"
proof -
  let ?reg = "[(''p'', PluginDef ''p'' ''Say'' ''Chat'' ''plugin::Say({x});'' [])]"
  let ?b = "Block BLOCK_PLUGIN ''Plugin: Say (p)'' [(''plugin_id'', VStr ''p'')] (Some []) []"
  let ?c = "Block BLOCK_COMMENT ''# hi'' [(''text'', VStr ''hi'')] None []"
  have h1: "map_of [(''plugin_id'', VStr ''p'')] ''plugin_id'' = Some (VStr ''p'')" by simp
  have h2: "''p'' \<noteq> []" by simp
  have h3: "map_of ?reg ''p'' = Some (PluginDef ''p'' ''Say'' ''Chat'' ''plugin::Say({x});'' [])" by simp
  have r: "render_plugin_template ''plugin::Say({x});'' [] = Inl (MissingParameter ''x'')" by code_simp
  then have h4: "render_plugin_template (perl_template (PluginDef ''p'' ''Say'' ''Chat'' ''plugin::Say({x});'' []))
                   (case Some [] of None \<Rightarrow> [] | Some d \<Rightarrow> d) = Inl (MissingParameter ''x'')"
    by simp
  have c: "render_all ?reg [?c] 0 = Inr [''# hi'']" by code_simp
  have "case validate_blocks [?b] ?reg of Inl e \<Rightarrow> False | Inr issues \<Rightarrow> True" by code_simp
  then obtain issues where v: "validate_blocks [?b] ?reg = Inr issues" by (auto split: sum.splits)
  have w: "?b \<in> set (walk_blocks [?b])" by simp
  note T = plugin_render_error [OF h1 h2 h3 h4, where l = "''Plugin: Say (p)''" and cs = "[]"]
  from T [where ?bs1.0 = "[?c]" and ls = "[''# hi'']"
      and ?bs2.0 = "[Block BLOCK_RETURN ''return'' [(''value'', VStr [])] None []]" and npc_id = None] c
  have g: "generate_perl ([?c] @ ?b # [Block BLOCK_RETURN ''return'' [(''value'', VStr [])] None []]) ?reg None
           = Inl (MissingParameter ''x'')" by blast
  from T [where blocks = "[?b]" and issues = issues] w v
  have "ValidationIssue ''error'' ''Plugin template render failed: '' (Some (MissingParameter ''x''))
            ''Plugin: Say (p)'' (Some ?b) \<in> set issues" by blast
  with v h1 r c g show ?thesis by blast
qed


text \<open>
  The claim as stated fails: with a comment before the plugin block and a return after
  it, the generator returns no text at all but raises the exception.
\<close>

theorem plugin_render_error_counterexample:
  "generate_perl
     [Block BLOCK_COMMENT ''# hi'' [(''text'', VStr ''hi'')] None [],
      Block BLOCK_PLUGIN ''Plugin: Say (p)'' [(''plugin_id'', VStr ''p'')] (Some []) [],
      Block BLOCK_RETURN ''return'' [(''value'', VStr [])] None []]
     [(''p'', PluginDef ''p'' ''Say'' ''Chat'' ''plugin::Say({x});'' [])] None
   = Inl (MissingParameter ''x'')"
  by code_simp


lemma bump_map_of:
  "map_of (bump cs ev) = (map_of cs)(ev \<mapsto> (case map_of cs ev of None \<Rightarrow> 1 | Some n \<Rightarrow> n + 1))"
  by (induction cs ev rule: bump.induct) (auto simp: fun_upd_twist)

lemma foldl_bump_map_of:
  "map_of (foldl bump cs evs) k =
     (if k \<in> set evs
      then Some (count_list evs k + (case map_of cs k of None \<Rightarrow> 0 | Some n \<Rightarrow> n))
      else map_of cs k)"
  by (induction evs arbitrary: cs) (auto simp: bump_map_of split: option.splits)

lemma count_events_twice:
  assumes "k \<noteq> []"
  shows "\<exists>n. n > 1 \<and> (k, n) \<in> set (count_events (a @ k # b @ k # c))"
proof -
  let ?evs = "filter (\<lambda>ev. ev \<noteq> []) (a @ k # b @ k # c)"
  have "k \<in> set ?evs" using assms by simp
  then have "map_of (count_events (a @ k # b @ k # c)) k = Some (count_list ?evs k)"
    by (simp add: count_events_def foldl_bump_map_of del: filter_append filter.simps)
  then have "(k, count_list ?evs k) \<in> set (count_events (a @ k # b @ k # c))"
    by (rule map_of_SomeD)
  moreover have "count_list ?evs k > 1" using assms by simp
  ultimately show ?thesis by blast
qed

lemma concat_e_append:
  "concat_e (xs @ ys) =
     (case concat_e xs of Inl e \<Rightarrow> Inl e
      | Inr a \<Rightarrow> (case concat_e ys of Inl e \<Rightarrow> Inl e | Inr b \<Rightarrow> Inr (a @ b)))"
  by (induction xs) (auto split: sum.splits)

lemma event_names_append:
  "event_names (xs @ ys) =
     (case event_names xs of Inl e \<Rightarrow> Inl e
      | Inr a \<Rightarrow> (case event_names ys of Inl e \<Rightarrow> Inl e | Inr b \<Rightarrow> Inr (a @ b)))"
  unfolding event_names_def by (simp add: concat_e_append)

lemma event_names_Cons:
  assumes "btype e = BLOCK_EVENT" "map_of (params e) ''event_name'' = Some (VStr s)"
  shows "event_names (e # ys) =
     (case event_names ys of Inl x \<Rightarrow> Inl x | Inr b \<Rightarrow> Inr (strip s # b))"
  using assms
  by (auto simp: event_names_def dget_def por_def truthy_def strip_val_def strip_def lstrip_def rstrip_def
      split: sum.splits)

lemma strip_event_spawn: "strip ''EVENT_SPAWN'' = ''EVENT_SPAWN''"
  by (simp add: strip_def lstrip_def rstrip_def is_space_def)

lemma timer_name_str:
  "map_of (params b) ''name'' = Some (VStr nm) \<Longrightarrow> timer_name b = Inr (strip nm)"
  by (auto simp: timer_name_def dget_def por_def truthy_def strip_val_def strip_def lstrip_def rstrip_def)

lemma timer_sets_nonempty:
  "b \<in> set bs \<Longrightarrow> btype b = BLOCK_TIMER \<Longrightarrow> timer_name b = Inr nm \<Longrightarrow> nm \<noteq> [] \<Longrightarrow> timer_sets bs \<noteq> []"
  by (auto simp: timer_sets_def intro!: bexI [of _ b])


text \<open>
  C6.  Whenever validation returns its issues: a timer block anywhere in the tree, named
  \<^verbatim>\<open>respawn\<close> with seconds -1, yields the error \<^verbatim>\<open>Timer seconds must be >= 0.\<close> on that block; a
  timer block with a name (one that the program adds to \<^verbatim>\<open>timer_sets\<close>), when no top-level
  event block has the event name \<^verbatim>\<open>EVENT_TIMER\<close>, yields the whole-script warning; and two
  top-level event blocks that both carry the event name \<^verbatim>\<open>EVENT_SPAWN\<close> yield the
  duplicate-handler warning, with the number of such handlers, which is above 1.
\<close>

theorem validate_timer_and_duplicates:
  assumes "validate_blocks blocks reg = Inr issues"
  shows "(b \<in> set (walk_blocks blocks) \<and> btype b = BLOCK_TIMER
          \<and> map_of (params b) ''name'' = Some (VStr ''respawn'')
          \<and> map_of (params b) ''seconds'' = Some (VInt (- 1))
          \<longrightarrow> ValidationIssue ''error'' ''Timer seconds must be >= 0.'' None (label b) (Some b) \<in> set issues)
       \<and> (t \<in> set (walk_blocks blocks) \<and> btype t = BLOCK_TIMER
          \<and> map_of (params t) ''name'' = Some (VStr nm) \<and> strip nm \<noteq> []
          \<and> \<not> has_event_timer blocks
          \<longrightarrow> ValidationIssue ''warn'' ''You set timers but have no EVENT_TIMER handler.'' None ''root'' None
                \<in> set issues)
       \<and> (blocks = xs @ e1 # ys @ e2 # zs
          \<and> btype e1 = BLOCK_EVENT \<and> map_of (params e1) ''event_name'' = Some (VStr ''EVENT_SPAWN'')
          \<and> btype e2 = BLOCK_EVENT \<and> map_of (params e2) ''event_name'' = Some (VStr ''EVENT_SPAWN'')
          \<longrightarrow> (\<exists>n. n > 1 \<and>
                ValidationIssue ''warn''
                  (''Duplicate top-level handler: EVENT_SPAWN appears '' @ dec_nat n @ '' times (often accidental).'')
                  None ''EVENT_SPAWN'' None \<in> set issues))"
proof -
  have p1: "ValidationIssue ''error'' ''Timer seconds must be >= 0.'' None (label b) (Some b) \<in> set issues"
    if b: "b \<in> set (walk_blocks blocks)" "btype b = BLOCK_TIMER"
      "map_of (params b) ''name'' = Some (VStr ''respawn'')"
      "map_of (params b) ''seconds'' = Some (VInt (- 1))"
  proof -
    from validate_parts(3) [OF assms] obtain ts where
      ts: "concat_e (map timer_issues (walk_blocks blocks)) = Inr ts" "set ts \<subseteq> set issues" by blast
    have "timer_issues b \<in> set (map timer_issues (walk_blocks blocks))" using b(1) by simp
    from concat_e_Inr [OF ts(1) this] obtain a where a: "timer_issues b = Inr a" "set a \<subseteq> set ts" by blast
    have "timer_name b = Inr (strip ''respawn'')" using b(3) by (rule timer_name_str)
    then have "timer_issues b =
        Inr [ValidationIssue ''error'' ''Timer seconds must be >= 0.'' None (label b) (Some b)]"
      using b(2,4) by (simp add: timer_issues_def dget_def py_int_def strip_def lstrip_def rstrip_def is_space_def)
    with a ts(2) show ?thesis by auto
  qed
  have p2: "ValidationIssue ''warn'' ''You set timers but have no EVENT_TIMER handler.'' None ''root'' None
              \<in> set issues"
    if t: "t \<in> set (walk_blocks blocks)" "btype t = BLOCK_TIMER"
      "map_of (params t) ''name'' = Some (VStr nm)" "strip nm \<noteq> []" "\<not> has_event_timer blocks"
  proof -
    from timer_sets_nonempty [OF t(1,2) timer_name_str [OF t(3)] t(4)]
    have "timer_sets (walk_blocks blocks) \<noteq> []" .
    with validate_parts(4) [OF assms] t(5) show ?thesis by blast
  qed
  have p3: "\<exists>n. n > 1 \<and>
        ValidationIssue ''warn''
          (''Duplicate top-level handler: EVENT_SPAWN appears '' @ dec_nat n @ '' times (often accidental).'')
          None ''EVENT_SPAWN'' None \<in> set issues"
    if e: "blocks = xs @ e1 # ys @ e2 # zs"
      "btype e1 = BLOCK_EVENT" "map_of (params e1) ''event_name'' = Some (VStr ''EVENT_SPAWN'')"
      "btype e2 = BLOCK_EVENT" "map_of (params e2) ''event_name'' = Some (VStr ''EVENT_SPAWN'')"
  proof -
    from validate_parts(5) [OF assms] obtain evs where
      evs: "event_names blocks = Inr evs" "set (duplicate_issues (count_events evs)) \<subseteq> set issues" by blast
    from evs(1) obtain a b c where "evs = a @ ''EVENT_SPAWN'' # b @ ''EVENT_SPAWN'' # c"
      unfolding e(1)
      by (auto simp: event_names_append event_names_Cons [OF e(2,3)] event_names_Cons [OF e(4,5)]
          strip_event_spawn split: sum.splits)
    with count_events_twice [of "''EVENT_SPAWN''" a b c] obtain n where
      n: "n > 1" "(''EVENT_SPAWN'', n) \<in> set (count_events evs)" by auto
    then have "ValidationIssue ''warn''
          (''Duplicate top-level handler: EVENT_SPAWN appears '' @ dec_nat n @ '' times (often accidental).'')
          None ''EVENT_SPAWN'' None \<in> set (duplicate_issues (count_events evs))"
      by (force simp: duplicate_issues_def)
    with evs(2) n(1) show ?thesis by blast
  qed
  from p1 p2 p3 show ?thesis by blast
qed

theorem validate_timer_and_duplicates_witness:
  "\<exists>issues.
     validate_blocks
       [Block BLOCK_EVENT ''EVENT_SPAWN'' [(''event_name'', VStr ''EVENT_SPAWN'')] None
          [Block BLOCK_TIMER ''t'' [(''name'', VStr ''respawn''), (''seconds'', VInt (- 1))] None []],
        Block BLOCK_EVENT ''EVENT_SPAWN'' [(''event_name'', VStr ''EVENT_SPAWN'')] None []] [] = Inr issues
     \<and> ValidationIssue ''error'' ''Timer seconds must be >= 0.'' None ''t''
          (Some (Block BLOCK_TIMER ''t'' [(''name'', VStr ''respawn''), (''seconds'', VInt (- 1))] None []))
          \<in> set issues
     \<and> ValidationIssue ''warn'' ''You set timers but have no EVENT_TIMER handler.'' None ''root'' None
          \<in> set issues
     \<and> (\<exists>n. n > 1 \<and>
           ValidationIssue ''warn''
             (''Duplicate top-level handler: EVENT_SPAWN appears '' @ dec_nat n @ '' times (often accidental).'')
             None ''EVENT_SPAWN'' None \<in> set issues)"
proof -
  let ?t = "Block BLOCK_TIMER ''t'' [(''name'', VStr ''respawn''), (''seconds'', VInt (- 1))] None []"
  let ?e1 = "Block BLOCK_EVENT ''EVENT_SPAWN'' [(''event_name'', VStr ''EVENT_SPAWN'')] None [?t]"
  let ?e2 = "Block BLOCK_EVENT ''EVENT_SPAWN'' [(''event_name'', VStr ''EVENT_SPAWN'')] None []"
  have "case validate_blocks [?e1, ?e2] [] of Inl e \<Rightarrow> False | Inr issues \<Rightarrow> True" by code_simp
  then obtain issues where v: "validate_blocks [?e1, ?e2] [] = Inr issues" by (auto split: sum.splits)
  note T = validate_timer_and_duplicates [OF v, where b = ?t and t = ?t and nm = "''respawn''"
      and xs = "[]" and ?e1.0 = ?e1 and ys = "[]" and ?e2.0 = ?e2 and zs = "[]"]
  have w: "?t \<in> set (walk_blocks [?e1, ?e2])" by simp
  have s: "strip ''respawn'' \<noteq> []" by (simp add: strip_def lstrip_def rstrip_def is_space_def)
  have h: "\<not> has_event_timer [?e1, ?e2]" by (simp add: has_event_timer_def)
  from T w s h have
    "ValidationIssue ''error'' ''Timer seconds must be >= 0.'' None ''t'' (Some ?t) \<in> set issues"
    "ValidationIssue ''warn'' ''You set timers but have no EVENT_TIMER handler.'' None ''root'' None \<in> set issues"
    "\<exists>n. n > 1 \<and>
           ValidationIssue ''warn''
             (''Duplicate top-level handler: EVENT_SPAWN appears '' @ dec_nat n @ '' times (often accidental).'')
             None ''EVENT_SPAWN'' None \<in> set issues"
    by simp_all
  with v show ?thesis by blast
qed

subsection \<open>The template renderer and its pattern\<close>

lemma star_greedy_cls:
  assumes fail: "\<And>x xs q cp. cmatch c x \<Longrightarrow> k (MState (x # xs) q cp) = None"
  shows "length s \<le> length fuel \<Longrightarrow>
     star_greedy (rmatch (Cls c)) fuel k (MState s p cp) =
       k (MState (dropWhile (cmatch c) s)
            (if takeWhile (cmatch c) s = [] then p else Some (last (takeWhile (cmatch c) s))) cp)"
proof (induction fuel arbitrary: s p)
  case Nil
  then show ?case by simp
next
  case (Cons f fuel)
  show ?case
  proof (cases s)
    case Nil
    then show ?thesis by simp
  next
    case (Cons x xs)
    show ?thesis
    proof (cases "cmatch c x")
      case False
      with Cons show ?thesis by simp
    next
      case True
      from Cons Cons.prems have "length xs \<le> length fuel" by simp
      from Cons.IH [OF this, of "Some x"] True Cons fail [OF True, of xs p cp]
      show ?thesis by (simp split: option.splits)
    qed
  qed
qed

lemma not_word_brace: "\<not> is_word CHR ''}''" "\<not> is_word CHR ''{''"
  by (simp_all add: is_word_def is_ascii_digit_def is_ascii_alpha_def less_eq_char_def)

lemma placeholder_match:
  "rmatch PLACEHOLDER_RE Some (MState s p []) =
     (case s of
        [] \<Rightarrow> None
      | c # t \<Rightarrow>
          if c = CHR ''{'' then
            (case t of
               [] \<Rightarrow> None
             | x # xs \<Rightarrow>
                 if ident_start x \<and> startswith (dropWhile is_word xs) ''}''
                 then Some (MState (tl (dropWhile is_word xs)) (Some CHR ''}'') [(1, x # takeWhile is_word xs)])
                 else None)
          else None)"
proof (cases s)
  case Nil
  then show ?thesis by (simp add: PLACEHOLDER_RE_def lit_match_def startswith_def)
next
  case (Cons c t)
  show ?thesis
  proof (cases "c = CHR ''{''")
    case False
    with Cons show ?thesis by (simp add: PLACEHOLDER_RE_def lit_match_def startswith_def)
  next
    case True
    show ?thesis
    proof (cases t)
      case Nil
      with Cons True show ?thesis
        by (simp add: PLACEHOLDER_RE_def lit_match_def startswith_def advance_def)
    next
      case (Cons x xs)
      let ?s0 = "MState (x # xs) (Some CHR ''{'') []"
      let ?k = "\<lambda>s'. lit_match ''}'' Some (MState (rest s') (prev s') ((1, consumed ?s0 s') # caps s'))"
      have w: "cmatch (OneOf [CWord]) = is_word" by (auto simp: fun_eq_iff)
      have fail: "\<And>y ys q cp. cmatch (OneOf [CWord]) y \<Longrightarrow> ?k (MState (y # ys) q cp) = None"
        using not_word_brace by (auto simp: lit_match_def startswith_def)
      have star: "star_greedy (rmatch (Cls (OneOf [CWord]))) xs ?k (MState xs (Some x) []) =
          ?k (MState (dropWhile is_word xs)
               (if takeWhile is_word xs = [] then Some x else Some (last (takeWhile is_word xs))) [])"
        using star_greedy_cls [of "OneOf [CWord]" ?k xs xs "Some x" "[]", OF fail] by (simp add: w)
      have len: "Suc (length xs) - length (dropWhile is_word xs) = Suc (length (takeWhile is_word xs))"
        by (metis Suc_diff_le add_diff_cancel_right' length_append length_dropWhile_le takeWhile_dropWhile_id)
      have st: "ident_start x = cmatch (OneOf [CRange CHR ''A'' CHR ''Z'', CRange CHR ''a'' CHR ''z'', CC CHR ''_'']) x"
        by (auto simp: ident_start_def)
      show ?thesis
        unfolding \<open>s = c # t\<close> Cons True
        using star
        by (auto simp: PLACEHOLDER_RE_def lit_match_def startswith_def advance_def st consumed_def len
              drop_Suc takeWhile_eq_take [symmetric]
              simp del: cmatch.simps split: list.splits)
    qed
  qed
qed

text \<open>What a match of the pattern is.\<close>

lemma placeholder_match_Some:
  assumes "rmatch PLACEHOLDER_RE Some (MState s p []) = Some m"
  shows "\<exists>n. is_identifier n \<and> s = CHR ''{'' # n @ CHR ''}'' # rest m \<and> group_str m 1 = n
             \<and> length (rest m) < length s"
proof -
  from assms obtain x xs where s: "s = CHR ''{'' # x # xs" and x: "ident_start x"
    and d: "startswith (dropWhile is_word xs) ''}''"
    and m: "m = MState (tl (dropWhile is_word xs)) (Some CHR ''}'') [(1, x # takeWhile is_word xs)]"
    unfolding placeholder_match by (auto split: list.splits if_splits)
  from d have d': "dropWhile is_word xs = CHR ''}'' # tl (dropWhile is_word xs)"
    by (cases "dropWhile is_word xs") (auto simp: startswith_def)
  have "xs = takeWhile is_word xs @ dropWhile is_word xs" by simp
  with d' have xs: "xs = takeWhile is_word xs @ CHR ''}'' # tl (dropWhile is_word xs)" by metis
  have id: "is_identifier (x # takeWhile is_word xs)"
    using x by (auto simp: is_identifier_def list_all_iff dest: set_takeWhileD)
  have "length (dropWhile is_word xs) \<le> length xs" by (rule length_dropWhile_le)
  then have "length (tl (dropWhile is_word xs)) < length s"
    using s by simp
  with s m xs id show ?thesis by (auto simp: group_str_def)
qed

lemma placeholder_match_ident:
  assumes "is_identifier n"
  shows "rmatch PLACEHOLDER_RE Some (MState (CHR ''{'' # n @ CHR ''}'' # r) p [])
           = Some (MState r (Some CHR ''}'') [(1, n)])"
proof -
  from assms obtain x xs where n: "n = x # xs" and x: "ident_start x" and xs: "list_all is_word xs"
    by (cases n) (auto simp: is_identifier_def)
  from xs have t: "takeWhile is_word (xs @ CHR ''}'' # r) = xs"
    and d: "dropWhile is_word (xs @ CHR ''}'' # r) = CHR ''}'' # r"
    using not_word_brace by (auto simp: list_all_iff takeWhile_append2 dropWhile_append2)
  show ?thesis unfolding placeholder_match n using x by (simp add: t d startswith_def)
qed

lemma sub_loop_match:
  assumes "rmatch PLACEHOLDER_RE Some (MState s p []) = Some m"
  shows "re_sub_loop PLACEHOLDER_RE f p s =
     (case f m of Inl e \<Rightarrow> Inl e
      | Inr t \<Rightarrow> map_sum id ((@) t) (re_sub_loop PLACEHOLDER_RE f (prev m) (rest m)))"
proof -
  from placeholder_match_Some [OF assms] have "length (rest m) < length s" by blast
  with assms show ?thesis by (subst re_sub_loop.simps) (simp split: sum.splits)
qed

lemma sub_loop_nomatch:
  assumes "rmatch PLACEHOLDER_RE Some (MState s p []) = None"
  shows "re_sub_loop PLACEHOLDER_RE f p s =
     (case s of [] \<Rightarrow> Inr [] | c # cs \<Rightarrow> map_sum id ((#) c) (re_sub_loop PLACEHOLDER_RE f (Some c) cs))"
  using assms by (subst re_sub_loop.simps) simp

lemma sub_loop_prev: "re_sub_loop PLACEHOLDER_RE f p s = re_sub_loop PLACEHOLDER_RE f q s"
proof (cases "rmatch PLACEHOLDER_RE Some (MState s p [])")
  case None
  then have "rmatch PLACEHOLDER_RE Some (MState s q []) = None" by (simp add: placeholder_match)
  with None show ?thesis by (simp add: sub_loop_nomatch)
next
  case (Some m)
  then have "rmatch PLACEHOLDER_RE Some (MState s q []) = Some m" by (simp add: placeholder_match)
  with Some show ?thesis by (simp add: sub_loop_match)
qed

lemma render_Nil: "render_plugin_template [] ps = Inr []"
  by (simp add: render_plugin_template_def re_sub_def sub_loop_nomatch placeholder_match)

lemma repl_key: "group_str m 1 = n \<Longrightarrow>
  repl ps m = (case map_of ps n of None \<Rightarrow> Inl (MissingParameter n)
               | Some v \<Rightarrow> Inr (if v = VNone then [] else py_str v))"
  by (simp add: repl_def)

lemma render_placeholder:
  assumes "is_identifier n"
  shows "render_plugin_template (CHR ''{'' # n @ CHR ''}'' # r) ps =
     (case map_of ps n of
        None \<Rightarrow> Inl (MissingParameter n)
      | Some v \<Rightarrow> map_sum id ((@) (if v = VNone then [] else py_str v)) (render_plugin_template r ps))"
  unfolding render_plugin_template_def re_sub_def
  by (simp add: sub_loop_match [OF placeholder_match_ident [OF assms]] repl_key group_str_def
      sub_loop_prev [of _ "Some CHR ''}''" _ None] split: option.splits)

lemma render_other:
  assumes "\<not> (\<exists>n r. is_identifier n \<and> c # cs = CHR ''{'' # n @ CHR ''}'' # r)"
  shows "render_plugin_template (c # cs) ps = map_sum id ((#) c) (render_plugin_template cs ps)"
proof -
  have "rmatch PLACEHOLDER_RE Some (MState (c # cs) None []) = None"
  proof (cases "rmatch PLACEHOLDER_RE Some (MState (c # cs) None [])")
    case (Some m)
    from placeholder_match_Some [OF this] assms show ?thesis by blast
  qed simp
  then show ?thesis
    unfolding render_plugin_template_def re_sub_def
    by (simp add: sub_loop_nomatch sub_loop_prev [of _ "Some c" _ None])
qed

lemma ident_no_open: "is_identifier n \<Longrightarrow> CHR ''{'' \<notin> set n"
proof -
  assume a: "is_identifier n"
  then obtain x xs where n: "n = x # xs" "ident_start x" "list_all is_word xs"
    by (cases n) (auto simp: is_identifier_def)
  have "x \<noteq> CHR ''{''" using n(2) by (auto simp: ident_start_def less_eq_char_def)
  moreover have "CHR ''{'' \<notin> set xs" using n(3) not_word_brace by (auto simp: list_all_iff)
  ultimately show ?thesis using n(1) by simp
qed

lemma overlap:
  assumes eq: "pre @ CHR ''{'' # Y = CHR ''{'' # n @ CHR ''}'' # r"
    and n: "CHR ''{'' \<notin> set n" and pre: "pre \<noteq> []"
  shows "\<exists>pre'. r = pre' @ CHR ''{'' # Y \<and> length pre' < length pre"
proof -
  from pre eq obtain p1 where p1: "pre = CHR ''{'' # p1" by (cases pre) auto
  with eq have "p1 @ CHR ''{'' # Y = n @ CHR ''}'' # r" by simp
  then obtain us where
    "(p1 = n @ us \<and> us @ CHR ''{'' # Y = CHR ''}'' # r) \<or> (p1 @ us = n \<and> CHR ''{'' # Y = us @ CHR ''}'' # r)"
    by (auto simp: append_eq_append_conv2)
  then show ?thesis
  proof
    assume a: "p1 = n @ us \<and> us @ CHR ''{'' # Y = CHR ''}'' # r"
    then obtain us' where "us = CHR ''}'' # us'" "r = us' @ CHR ''{'' # Y" by (cases us) auto
    with a p1 show ?thesis by auto
  next
    assume a: "p1 @ us = n \<and> CHR ''{'' # Y = us @ CHR ''}'' # r"
    then have "us \<noteq> []" by auto
    with a have "CHR ''{'' \<in> set us" by (cases us) auto
    with a n show ?thesis by auto
  qed
qed

lemma render_fail_complete:
  assumes "is_identifier n" "map_of ps n = None"
  shows "\<exists>e. re_sub_loop PLACEHOLDER_RE (repl ps) p (pre @ CHR ''{'' # n @ CHR ''}'' # post) = Inl e"
proof (induction "length pre" arbitrary: pre p rule: less_induct)
  case less
  let ?X = "CHR ''{'' # n @ CHR ''}'' # post"
  show ?case
  proof (cases "rmatch PLACEHOLDER_RE Some (MState (pre @ ?X) p [])")
    case None
    show ?thesis
    proof (cases pre)
      case Nil
      with None placeholder_match_ident [OF assms(1), of post p] show ?thesis by simp
    next
      case (Cons c cs)
      from less [of cs "Some c"] Cons obtain e where
        "re_sub_loop PLACEHOLDER_RE (repl ps) (Some c) (cs @ ?X) = Inl e" by auto
      with None Cons show ?thesis by (simp add: sub_loop_nomatch)
    qed
  next
    case (Some m)
    from placeholder_match_Some [OF Some] obtain n' where
      n': "is_identifier n'" "pre @ ?X = CHR ''{'' # n' @ CHR ''}'' # rest m" "group_str m 1 = n'"
      by blast
    show ?thesis
    proof (cases "repl ps m")
      case (Inl e)
      with Some show ?thesis by (simp add: sub_loop_match)
    next
      case (Inr t)
      show ?thesis
      proof (cases "pre = []")
        case True
        with Some placeholder_match_ident [OF assms(1), of post p] n'(3) have "n = n'"
          by (auto simp: group_str_def)
        with Inr n'(3) assms(2) show ?thesis by (simp add: repl_key)
      next
        case False
        from overlap [OF n'(2) ident_no_open [OF n'(1)] False] obtain pre' where
          pre': "rest m = pre' @ ?X" "length pre' < length pre" by blast
        from less [OF pre'(2), of "prev m"] pre'(1) obtain e where
          "re_sub_loop PLACEHOLDER_RE (repl ps) (prev m) (rest m) = Inl e" by auto
        with Some Inr show ?thesis by (simp add: sub_loop_match)
      qed
    qed
  qed
qed

lemma render_fail_sound:
  "re_sub_loop PLACEHOLDER_RE (repl ps) p t = Inl e \<Longrightarrow>
     \<exists>pre n post. t = pre @ CHR ''{'' # n @ CHR ''}'' # post \<and> is_identifier n
        \<and> map_of ps n = None \<and> e = MissingParameter n"
proof (induction "length t" arbitrary: t p rule: less_induct)
  case less
  show ?case
  proof (cases "rmatch PLACEHOLDER_RE Some (MState t p [])")
    case None
    with less.prems obtain c cs where t: "t = c # cs"
      and r: "re_sub_loop PLACEHOLDER_RE (repl ps) (Some c) cs = Inl e"
      by (cases t) (auto simp: sub_loop_nomatch map_sum_def split: sum.splits)
    from less.hyps [of cs "Some c"] t r obtain pre n post where
      "cs = pre @ CHR ''{'' # n @ CHR ''}'' # post" "is_identifier n" "map_of ps n = None" "e = MissingParameter n"
      by auto
    with t show ?thesis by (metis append_Cons)
  next
    case (Some m)
    from placeholder_match_Some [OF Some] obtain n where
      n: "is_identifier n" "t = CHR ''{'' # n @ CHR ''}'' # rest m" "group_str m 1 = n"
        "length (rest m) < length t"
      by blast
    show ?thesis
    proof (cases "map_of ps n")
      case None
      with less.prems Some n(3) have "e = MissingParameter n"
        by (simp add: sub_loop_match repl_key)
      with n None show ?thesis by (metis append_Nil)
    next
      case (Some v)
      with less.prems \<open>rmatch PLACEHOLDER_RE Some (MState t p []) = Some m\<close> n(3)
      have "re_sub_loop PLACEHOLDER_RE (repl ps) (prev m) (rest m) = Inl e"
        by (auto simp: sub_loop_match repl_key map_sum_def split: sum.splits)
      from less.hyps [OF n(4) this] obtain pre n' post where
        r: "rest m = pre @ CHR ''{'' # n' @ CHR ''}'' # post" "is_identifier n'" "map_of ps n' = None"
          "e = MissingParameter n'" by blast
      from n(2) r(1) have "t = (CHR ''{'' # n @ CHR ''}'' # pre) @ CHR ''{'' # n' @ CHR ''}'' # post" by simp
      with r show ?thesis by blast
    qed
  qed
qed

text \<open>
  C4.  The renderer on every template and parameter map.  An empty template renders as
  the empty text.  A template that begins with a placeholder, an identifier in braces,
  renders as the parameter's value as text (the empty text for \<^verbatim>\<open>None\<close>) followed by the
  rendering of the rest, so a repeated placeholder is replaced at every occurrence, and it
  raises \<^verbatim>\<open>MissingParameter\<close> with the identifier when the map has no entry for it.  A
  template that does not begin with a placeholder keeps its first character, whatever it
  is, a brace too.  Rendering raises exactly when the template has a placeholder whose
  identifier the map lacks, and what it raises is \<^verbatim>\<open>MissingParameter\<close> of such an identifier.
  The three examples of the specification evaluate as stated.
\<close>

theorem render_plugin_template_spec:
  "render_plugin_template [] ps = Inr []
   \<and> (is_identifier n \<longrightarrow>
        render_plugin_template (CHR ''{'' # n @ CHR ''}'' # r) ps =
          (case map_of ps n of
             None \<Rightarrow> Inl (MissingParameter n)
           | Some v \<Rightarrow> map_sum id ((@) (if v = VNone then [] else py_str v)) (render_plugin_template r ps)))
   \<and> (\<not> (\<exists>n r. is_identifier n \<and> c # cs = CHR ''{'' # n @ CHR ''}'' # r) \<longrightarrow>
        render_plugin_template (c # cs) ps = map_sum id ((#) c) (render_plugin_template cs ps))
   \<and> ((\<exists>e. render_plugin_template t ps = Inl e) \<longleftrightarrow>
        (\<exists>pre n post. t = pre @ CHR ''{'' # n @ CHR ''}'' # post \<and> is_identifier n \<and> map_of ps n = None))
   \<and> (render_plugin_template t ps = Inl e \<longrightarrow>
        (\<exists>pre n post. t = pre @ CHR ''{'' # n @ CHR ''}'' # post \<and> is_identifier n \<and> map_of ps n = None
            \<and> e = MissingParameter n))
   \<and> render_plugin_template ''{a} {a}'' [(''a'', VStr ''z'')] = Inr ''z z''
   \<and> render_plugin_template ''{x}'' [] = Inl (MissingParameter ''x'')
   \<and> render_plugin_template (''plugin::F($client, '' @ [DQ] @ ''{message}'' @ [DQ] @ '')'')
        [(''message'', VStr ''Hi'')] = Inr (''plugin::F($client, '' @ [DQ] @ ''Hi'' @ [DQ] @ '')'')"
proof -
  have c1: "render_plugin_template [] ps = Inr []" by (rule render_Nil)
  have c2: "is_identifier n \<longrightarrow>
        render_plugin_template (CHR ''{'' # n @ CHR ''}'' # r) ps =
          (case map_of ps n of
             None \<Rightarrow> Inl (MissingParameter n)
           | Some v \<Rightarrow> map_sum id ((@) (if v = VNone then [] else py_str v)) (render_plugin_template r ps))"
    using render_placeholder by blast
  have c3: "\<not> (\<exists>n r. is_identifier n \<and> c # cs = CHR ''{'' # n @ CHR ''}'' # r) \<longrightarrow>
        render_plugin_template (c # cs) ps = map_sum id ((#) c) (render_plugin_template cs ps)"
    using render_other by blast
  have s: "render_plugin_template t ps = Inl e \<Longrightarrow>
        (\<exists>pre n post. t = pre @ CHR ''{'' # n @ CHR ''}'' # post \<and> is_identifier n \<and> map_of ps n = None
            \<and> e = MissingParameter n)" for e
    unfolding render_plugin_template_def re_sub_def by (rule render_fail_sound)
  have c: "\<exists>e. render_plugin_template t ps = Inl e"
    if "\<exists>pre n post. t = pre @ CHR ''{'' # n @ CHR ''}'' # post \<and> is_identifier n \<and> map_of ps n = None"
    using that render_fail_complete unfolding render_plugin_template_def re_sub_def by blast
  have c4: "(\<exists>e. render_plugin_template t ps = Inl e) \<longleftrightarrow>
        (\<exists>pre n post. t = pre @ CHR ''{'' # n @ CHR ''}'' # post \<and> is_identifier n \<and> map_of ps n = None)"
    using s c by blast
  have c5: "render_plugin_template t ps = Inl e \<longrightarrow>
        (\<exists>pre n post. t = pre @ CHR ''{'' # n @ CHR ''}'' # post \<and> is_identifier n \<and> map_of ps n = None
            \<and> e = MissingParameter n)"
    using s by blast
  have c6: "render_plugin_template ''{a} {a}'' [(''a'', VStr ''z'')] = Inr ''z z''" by code_simp
  have c7: "render_plugin_template ''{x}'' [] = Inl (MissingParameter ''x'')" by code_simp
  have c8: "render_plugin_template (''plugin::F($client, '' @ [DQ] @ ''{message}'' @ [DQ] @ '')'')
        [(''message'', VStr ''Hi'')] = Inr (''plugin::F($client, '' @ [DQ] @ ''Hi'' @ [DQ] @ '')'')"
    by code_simp
  show ?thesis
    by (rule conjI [OF c1 conjI [OF c2 conjI [OF c3 conjI [OF c4 conjI [OF c5 conjI [OF c6 conjI [OF c7 c8]]]]]]])
qed

theorem render_plugin_template_spec_witness:
  "is_identifier ''x'' \<and> map_of ([] :: pdict) ''x'' = None
   \<and> (\<exists>e. render_plugin_template ''a{x}b'' [] = Inl e)
   \<and> render_plugin_template ''{x}b'' [(''x'', VNone)] = map_sum id ((@) []) (render_plugin_template ''b'' [(''x'', VNone)])
   \<and> \<not> (\<exists>n r. is_identifier n \<and> ''}'' = CHR ''{'' # n @ CHR ''}'' # r)
   \<and> render_plugin_template ''}'' [] = Inr ''}''"
proof -
  have i: "is_identifier ''x''" by (simp add: is_identifier_def ident_start_def less_eq_char_def)
  have m: "map_of ([] :: pdict) ''x'' = None" by simp
  have d: "\<exists>pre n post. ''a{x}b'' = pre @ CHR ''{'' # n @ CHR ''}'' # post \<and> is_identifier n
             \<and> map_of ([] :: pdict) n = None"
    using i by (intro exI [of _ "''a''"] exI [of _ "''x''"] exI [of _ "''b''"]) simp
  note T4 = render_plugin_template_spec [where t = "''a{x}b''" and ps = "[]",
      THEN conjunct2, THEN conjunct2, THEN conjunct2, THEN conjunct1]
  from T4 d have a: "\<exists>e. render_plugin_template ''a{x}b'' [] = Inl e" by (rule iffD2)
  note T2 = render_plugin_template_spec [where n = "''x''" and r = "''b''" and ps = "[(''x'', VNone)]",
      THEN conjunct2, THEN conjunct1, rule_format, OF i]
  from T2 have b: "render_plugin_template ''{x}b'' [(''x'', VNone)]
           = map_sum id ((@) []) (render_plugin_template ''b'' [(''x'', VNone)])" by simp
  have n: "\<not> (\<exists>n r. is_identifier n \<and> ''}'' = CHR ''{'' # n @ CHR ''}'' # r)" by simp
  note T3 = render_plugin_template_spec [where c = "CHR ''}''" and cs = "[]" and ps = "[]",
      THEN conjunct2, THEN conjunct2, THEN conjunct1, rule_format, OF n]
  note T1 = render_plugin_template_spec [where ps = "[]", THEN conjunct1]
  from T3 T1 have c: "render_plugin_template ''}'' [] = Inr ''}''" by simp
  show ?thesis by (rule conjI [OF i conjI [OF m conjI [OF a conjI [OF b conjI [OF n c]]]]])
qed

subsection \<open>The reverse parser on the texts of the specification\<close>

text \<open>
  C8.  With every list of plugin recognizers, the line \<^verbatim>\<open>for (my $i = 0; $i <= 10; $i++) { }\<close>
  parses to one counted-for-loop block whose start is the integer 0 and whose end is the
  integer 10, with comparator \<^verbatim>\<open><=\<close> and increment \<^verbatim>\<open>++\<close>; the line
  \<^verbatim>\<open>for (my $i = $start; $i < $end; $i += 2) { }\<close> parses to one whose start and end are the texts
  \<^verbatim>\<open>$start\<close> and \<^verbatim>\<open>$end\<close>.
\<close>

theorem for_loop_bounds:
  "parse_perl_to_blocks ''for (my $i = 0; $i <= 10; $i++) { }'' plugin_patterns =
     Inr [Block BLOCK_FOR ''for ($i=0..10 <= ++)''
            [(''var_name'', VStr ''$i''), (''start'', VInt 0), (''end'', VInt 10),
             (''cmp_op'', VStr ''<=''), (''inc_expr'', VStr ''++'')] None []]
   \<and> parse_perl_to_blocks ''for (my $i = $start; $i < $end; $i += 2) { }'' plugin_patterns =
     Inr [Block BLOCK_FOR ''for ($i=$start..$end < += 2)''
            [(''var_name'', VStr ''$i''), (''start'', VStr ''$start''), (''end'', VStr ''$end''),
             (''cmp_op'', VStr ''<''), (''inc_expr'', VStr ''+= 2'')] None []]"
  by code_simp


text \<open>
  C7, as amended.  The parser works line by line, so the three openers are recognised when
  each stands on a line of its own, as the generator writes them.  With every list of
  plugin recognizers, the text of the six lines \<^verbatim>\<open>if (A) {\<close>, \<^verbatim>\<open>}\<close>, \<^verbatim>\<open>elsif (B) {\<close>, \<^verbatim>\<open>}\<close>,
  \<^verbatim>\<open>else {\<close>, \<^verbatim>\<open>}\<close> parses to three blocks at the root, the if, the elsif and the else, each
  without children.  The same three siblings result when the two inner closing lines are
  left out: the elsif and the else opener each pop the open conditional before them from
  the stack and are appended at its level, not under it.
\<close>

theorem elsif_else_siblings:
  "parse_perl_to_blocks (join [NL] [''if (A) {'', ''}'', ''elsif (B) {'', ''}'', ''else {'', ''}'']) plugin_patterns =
     Inr [Block BLOCK_IF ''if (A)'' [(''expr'', VStr ''A'')] None [],
          Block BLOCK_ELSIF ''elsif (B)'' [(''expr'', VStr ''B'')] None [],
          Block BLOCK_ELSE ''else'' [] None []]
   \<and> parse_perl_to_blocks (join [NL] [''if (A) {'', ''elsif (B) {'', ''else {'', ''}'']) plugin_patterns =
     Inr [Block BLOCK_IF ''if (A)'' [(''expr'', VStr ''A'')] None [],
          Block BLOCK_ELSIF ''elsif (B)'' [(''expr'', VStr ''B'')] None [],
          Block BLOCK_ELSE ''else'' [] None []]"
  by code_simp


text \<open>
  The claim as stated fails: the text \<^verbatim>\<open>if (A) { } elsif (B) { } else { }\<close> is one line, the
  recognizer of \<^verbatim>\<open>if\<close> matches it with the greedy group running to the last \<^verbatim>\<open>) {\<close>, and the
  result is one block.
\<close>

theorem elsif_else_siblings_counterexample:
  "parse_perl_to_blocks ''if (A) { } elsif (B) { } else { }'' [] =
     Inr [Block BLOCK_IF ''if (A) { } elsif (B)'' [(''expr'', VStr ''A) { } elsif (B'')] None []]"
  by code_simp


text \<open>
  C1 fails on the code.  The tree of one event handler with an empty \<^verbatim>\<open>return\<close> generates a
  text that parses back to a different tree: the identification comment at the head of
  the text comes back as a comment block, and the recogniser \<^verbatim>\<open>^return\b(.*);?\<close> takes the
  terminator into the value of the return.  Generating from the parsed tree gives a text
  with the identification comment twice and with \<^verbatim>\<open>return ;;\<close>.  The last three facts show the
  return statement by itself, without the header.
\<close>

theorem round_trip_failure:
  "generate_perl
     [Block BLOCK_EVENT ''EVENT_SPAWN'' [(''event_name'', VStr ''EVENT_SPAWN'')] None
        [Block BLOCK_RETURN ''return'' [(''value'', VStr [])] None []]] [] None
     = Inr (join [NL] [''# Generated by EQEmu Script Builder v1.2'', [], ''sub EVENT_SPAWN {'',
                       ''    return;'', ''}'', []])
   \<and> parse_perl_to_blocks
       (join [NL] [''# Generated by EQEmu Script Builder v1.2'', [], ''sub EVENT_SPAWN {'',
                   ''    return;'', ''}'', []]) []
     = Inr [Block BLOCK_COMMENT ''# Generated by EQEmu Script Builder v1.2''
              [(''text'', VStr ''Generated by EQEmu Script Builder v1.2'')] None [],
            Block BLOCK_EVENT ''EVENT_SPAWN'' [(''event_name'', VStr ''EVENT_SPAWN'')] None
              [Block BLOCK_RETURN ''return ;'' [(''value'', VStr '';'')] None []]]
   \<and> generate_perl
       [Block BLOCK_COMMENT ''# Generated by EQEmu Script Builder v1.2''
          [(''text'', VStr ''Generated by EQEmu Script Builder v1.2'')] None [],
        Block BLOCK_EVENT ''EVENT_SPAWN'' [(''event_name'', VStr ''EVENT_SPAWN'')] None
          [Block BLOCK_RETURN ''return ;'' [(''value'', VStr '';'')] None []]] [] None
     = Inr (join [NL] [''# Generated by EQEmu Script Builder v1.2'', [],
                       ''# Generated by EQEmu Script Builder v1.2'', ''sub EVENT_SPAWN {'',
                       ''    return ;;'', ''}'', []])
   \<and> join [NL] [''# Generated by EQEmu Script Builder v1.2'', [], ''sub EVENT_SPAWN {'',
                   ''    return;'', ''}'', []]
     \<noteq> join [NL] [''# Generated by EQEmu Script Builder v1.2'', [],
                     ''# Generated by EQEmu Script Builder v1.2'', ''sub EVENT_SPAWN {'',
                     ''    return ;;'', ''}'', []]
   \<and> render_all [] [Block BLOCK_RETURN ''return'' [(''value'', VStr [])] None []] 0 = Inr [''return;'']
   \<and> parse_perl_to_blocks ''return;'' [] = Inr [Block BLOCK_RETURN ''return ;'' [(''value'', VStr '';'')] None []]
   \<and> render_all [] [Block BLOCK_RETURN ''return ;'' [(''value'', VStr '';'')] None []] 0 = Inr [''return ;;'']"
  by code_simp

subsection \<open>The tree under the parser's updates\<close>

text \<open>
  \<open>heads\<close> lists type, label and parameters of every block of a tree.  Appending a block
  anywhere keeps the heads that are there, keeps every valid path valid, and adds the head
  of the new block when the place is the root list or the children of an existing block.
\<close>

definition heads :: "block list \<Rightarrow> (string \<times> string \<times> pdict) list" where
  "heads bs = map (\<lambda>b. (btype b, label b, params b)) (walk_blocks bs)"


lemma walk_blocks_append: "walk_blocks (xs @ ys) = walk_blocks xs @ walk_blocks ys"
  by (induction xs rule: walk_blocks.induct) auto

lemma walk_blocks_Cons: "walk_blocks (b # bs) = b # walk_blocks (children b) @ walk_blocks bs"
  by (cases b) simp

lemma heads_append: "heads (xs @ ys) = heads xs @ heads ys"
  by (simp add: heads_def walk_blocks_append)

lemma heads_Cons: "heads (b # bs) = (btype b, label b, params b) # heads (children b) @ heads bs"
  by (simp add: heads_def walk_blocks_Cons)

lemma heads_update:
  assumes "i < length bs"
  shows "heads (bs[i := Block (btype (bs ! i)) (label (bs ! i)) (params (bs ! i)) pp cs]) =
         heads (take i bs) @ (btype (bs ! i), label (bs ! i), params (bs ! i)) # heads cs
           @ heads (drop (Suc i) bs)"
  using assms by (simp add: upd_conv_take_nth_drop heads_append heads_Cons)

lemma heads_nth:
  assumes "i < length bs"
  shows "heads bs = heads (take i bs) @ (btype (bs ! i), label (bs ! i), params (bs ! i))
           # heads (children (bs ! i)) @ heads (drop (Suc i) bs)"
proof -
  have "bs = take i bs @ bs ! i # drop (Suc i) bs" using assms by (rule id_take_nth_drop)
  then have "heads bs = heads (take i bs @ bs ! i # drop (Suc i) bs)" by simp
  then show ?thesis by (simp only: heads_append heads_Cons)
qed

lemma heads_append_at: "set (heads bs) \<subseteq> set (heads (append_at q b bs))"
proof (induction q b bs rule: append_at.induct)
  case (1 b bs)
  then show ?case by (simp add: heads_append)
next
  case (2 i p b bs)
  show ?case
  proof (cases "i < length bs")
    case True
    with 2 have "set (heads (children (bs ! i))) \<subseteq> set (heads (append_at p b (children (bs ! i))))"
      by simp
    with True show ?thesis
      by (subst (1) heads_nth [OF True]) (auto simp: heads_update)
  next
    case False
    then show ?thesis by simp
  qed
qed


lemma block_at_append_at:
  "block_at p bs \<noteq> None \<Longrightarrow> block_at p (append_at q b bs) \<noteq> None"
proof (induction q b bs arbitrary: p rule: append_at.induct)
  case (1 b bs)
  then show ?case
  proof (induction p bs rule: block_at.induct)
    case (2 i bs)
    then show ?case by (auto simp: nth_append split: if_splits)
  next
    case (3 i j p bs)
    then show ?case by (auto simp: nth_append split: if_splits)
  qed simp
next
  case (2 i q b bs)
  show ?case
  proof (cases "i < length bs")
    case False
    with "2.prems" show ?thesis by simp
  next
    case True
    show ?thesis
    proof (cases p)
      case Nil
      with "2.prems" show ?thesis by simp
    next
      case (Cons k p')
      show ?thesis
      proof (cases p')
        case Nil
        with Cons "2.prems" True show ?thesis by (auto split: if_splits)
      next
        case (Cons j p'')
        with \<open>p = k # p'\<close> "2.prems" True "2.IH" [of "j # p''"] show ?thesis
          by (auto simp: nth_list_update split: if_splits)
      qed
    qed
  qed
qed


definition path_ok :: "nat list \<Rightarrow> block list \<Rightarrow> bool" where
  "path_ok p bs = (block_at p bs \<noteq> None)"

definition stack_ok :: "pstate \<Rightarrow> bool" where
  "stack_ok st = list_all (\<lambda>p. path_ok p (p_blocks st)) (p_stack st)"

definition ok_step :: "pstate \<Rightarrow> pstate \<Rightarrow> bool" where
  "ok_step st st' = ((stack_ok st \<longrightarrow> stack_ok st') \<and> set (heads (p_blocks st)) \<subseteq> set (heads (p_blocks st')))"

lemma path_ok_append_at: "path_ok p bs \<Longrightarrow> path_ok p (append_at q b bs)"
  unfolding path_ok_def by (rule block_at_append_at)


lemma ok_trans: "ok_step a b \<Longrightarrow> ok_step b c \<Longrightarrow> ok_step a c"
  by (auto simp: ok_step_def)

lemma ok_fields: "p_blocks st' = p_blocks st \<Longrightarrow> p_stack st' = p_stack st \<Longrightarrow> ok_step st st'"
  by (simp add: ok_step_def stack_ok_def)

lemma ok_upd:
  "ok_step st st1 \<Longrightarrow> p_blocks st2 = p_blocks st1 \<Longrightarrow> p_stack st2 = p_stack st1 \<Longrightarrow> ok_step st st2"
  by (blast intro: ok_trans ok_fields)


lemma ok_add_block: "ok_step st (add_block b st)"
proof -
  have "stack_ok (add_block b st)" if "stack_ok st"
    using that by (auto simp: stack_ok_def add_block_def list_all_iff intro: path_ok_append_at)
  moreover have "set (heads (p_blocks st)) \<subseteq> set (heads (p_blocks (add_block b st)))"
    by (simp add: add_block_def heads_append_at)
  ultimately show ?thesis by (simp add: ok_step_def)
qed






lemma ok_flush_multiline_decl: "ok_step st (flush_multiline_decl st)"
proof (cases "falsy_opt (multiline_decl_kind st) \<or> falsy_opt (multiline_var_name st) \<or> multiline_lines st = []")
  case True
  then show ?thesis unfolding flush_multiline_decl_def Let_def by (simp only: if_True) (rule ok_fields; simp)
next
  case False
  then show ?thesis
    unfolding flush_multiline_decl_def Let_def by (simp only: if_False) (rule ok_upd [OF ok_add_block]; simp)
qed


lemma ok_then_flush_multiline_decl:
  "ok_step st st1 \<Longrightarrow> ok_step st (if c then flush_multiline_decl st1 else st1)"
  by (auto intro: ok_trans ok_flush_multiline_decl)







subsection \<open>The seconds of a timer are digits\<close>























subsection \<open>Lines that no recognizer matches\<close>



lemma strip_blank_iff: "strip s = [] \<longleftrightarrow> list_all is_space s"
proof
  assume "strip s = []"
  then have a: "\<forall>x \<in> set (dropWhile is_space (rev s)). is_space x"
    by (simp add: strip_def lstrip_def rstrip_def dropWhile_eq_Nil_conv)
  have "dropWhile is_space (rev s) = []"
  proof (rule ccontr)
    assume n: "dropWhile is_space (rev s) \<noteq> []"
    then have "\<not> is_space (hd (dropWhile is_space (rev s)))" by (rule hd_dropWhile)
    with a n show False by (meson hd_in_set)
  qed
  then show "list_all is_space s" by (simp add: dropWhile_eq_Nil_conv list_all_iff)
next
  assume "list_all is_space s"
  then show "strip s = []"
    by (auto simp: strip_def lstrip_def rstrip_def dropWhile_eq_Nil_conv list_all_iff
        dest: set_dropWhileD)
qed














end
